theory Spec2Isabelle
  imports Complex_Main
begin

section \<open>Data model (core.go, lines 14-31)\<close>

text \<open>
  The recommender of \<^verbatim>\<open>core.go\<close> is embedded function by function. Go's \<^verbatim>\<open>float64\<close>
  scores are read as the exact rationals they denote (type \<open>rat\<close>, no rounding, no NaN
  or infinity as an input); \<^verbatim>\<open>math.Inf(-1)\<close>, the start value of the two running
  maxima, is \<open>None\<close> in \<open>rat option\<close>. The integers \<^verbatim>\<open>lastUsedHours\<close> and
  \<^verbatim>\<open>sizeBytes\<close> are only compared and converted, never added, so they are \<open>int\<close>.
  Strings are byte lists, as in Go.
\<close>

record Prefs =
  Tradeoff :: string
  AssumeAESNI :: bool
  ForceDetectExt :: bool

text \<open>
  \<^verbatim>\<open>Reason\<close> is built by \<^verbatim>\<open>fmt.Sprintf\<close>; the model keeps which of the two format
  strings was used and its arguments, not the rendered text.
\<close>

datatype reason =
    ReasonEmpty
  | ReasonSkip string
  | ReasonPicked string "rat option" string "rat option"

record Recommendation =
  Encryption :: string
  Compression :: string
  ZstdLevel :: int
  SkipCompression :: bool
  ScoreBreakdown :: "string \<rightharpoonup> rat"
  Reason :: reason
  DetectedMime :: string
  DetectedCategory :: string

text \<open>The value of \<^verbatim>\<open>var rec Recommendation\<close> after line 36: all fields zero, the map empty.\<close>

definition rec0 :: Recommendation where
  "rec0 = \<lparr>Encryption = [], Compression = [], ZstdLevel = 0, SkipCompression = False,
           ScoreBreakdown = Map.empty, Reason = ReasonEmpty,
           DetectedMime = [], DetectedCategory = []\<rparr>"

section \<open>The file handle and the standard library\<close>

text \<open>
  Of \<^verbatim>\<open>*os.File\<close> the code uses \<^verbatim>\<open>Name\<close>, \<^verbatim>\<open>ReadAt\<close> and \<^verbatim>\<open>Stat\<close>. \<open>ReadAt f n off\<close>
  is the call with a buffer of \<open>n\<close> bytes at offset \<open>off\<close>: the bytes read and the
  error, if any. \<open>Stat f\<close> is the size reported, \<open>None\<close> when \<^verbatim>\<open>Stat\<close> fails. A nil
  handle is \<open>None\<close> in \<open>os_File option\<close>.
\<close>

datatype io_error = EOF | IOFailure

record os_File =
  Name :: string
  ReadAt :: "nat \<Rightarrow> nat \<Rightarrow> char list \<times> io_error option"
  Stat :: "int option"

text \<open>
  \<^verbatim>\<open>http.DetectContentType\<close> and \<^verbatim>\<open>mime.TypeByExtension\<close> belong to the standard library and
  to the host's MIME tables, not to this repository: they are parameters.
\<close>

record stdlib =
  DetectContentType :: "char list \<Rightarrow> string"
  TypeByExtension :: "string \<Rightarrow> string"

text \<open>
  Go leaves the order of \<^verbatim>\<open>for k, v := range m\<close> over a map unspecified. The order taken
  by each of the two such loops (lines 112 and 192) is a parameter as well.
\<close>

record range_order =
  encRange :: "string list"
  compRange :: "string list"

subsection \<open>String functions of the standard library, on ASCII\<close>

text \<open>
  \<^verbatim>\<open>strings.ToLower\<close> and \<^verbatim>\<open>strings.TrimSpace\<close> are modelled on ASCII: bytes above 127
  are left as they are and are no white space.
\<close>

definition toLowerByte :: "char \<Rightarrow> char" where
  "toLowerByte c =
     (case map_of (zip ''ABCDEFGHIJKLMNOPQRSTUVWXYZ'' ''abcdefghijklmnopqrstuvwxyz'') c of
        Some l \<Rightarrow> l
      | None \<Rightarrow> c)"

definition ToLower :: "string \<Rightarrow> string" where
  "ToLower s = map toLowerByte s"

definition isSpace :: "char \<Rightarrow> bool" where
  "isSpace c = (c \<in> set [CHR 0x09, CHR 0x0A, CHR 0x0B, CHR 0x0C, CHR 0x0D, CHR '' ''])"

definition TrimSpace :: "string \<Rightarrow> string" where
  "TrimSpace s = rev (dropWhile isSpace (rev (dropWhile isSpace s)))"

definition HasPrefix :: "string \<Rightarrow> string \<Rightarrow> bool" where
  "HasPrefix s p = (take (length p) s = p)"

fun Contains :: "string \<Rightarrow> string \<Rightarrow> bool" where
  "Contains [] sub = (sub = [])"
| "Contains (c # s) sub = (HasPrefix (c # s) sub \<or> Contains s sub)"

text \<open>
  \<^verbatim>\<open>filepath.Ext\<close>: scanning from the end up to the last path separator, the suffix that
  starts at the first dot met. \<open>extScan acc r\<close> walks the reversed path \<open>r\<close> with
  the bytes already passed in \<open>acc\<close>.
\<close>

fun extScan :: "string \<Rightarrow> string \<Rightarrow> string" where
  "extScan acc [] = []"
| "extScan acc (c # r) =
     (if c = CHR ''/'' then []
      else if c = CHR ''.'' then c # acc
      else extScan (c # acc) r)"

definition Ext :: "string \<Rightarrow> string" where
  "Ext path = extScan [] (rev path)"

section \<open>detectFileCategory (core.go, lines 251-288)\<close>

text \<open>The \<^verbatim>\<open>if / else if\<close> chain of lines 268-286, on the lowered MIME string and the extension.\<close>

definition extCategory :: "string \<Rightarrow> string" where
  "extCategory ext =
     (if ext \<in> set [''.txt'', ''.md'', ''.csv'', ''.log'', ''.json'', ''.xml'', ''.yaml'',
                     ''.yml'', ''.go'', ''.py'', ''.c'', ''.cpp'', ''.java'']
      then ''text''
      else if ext = ''.pdf'' then ''archive''
      else ''binary'')"

definition categoryOf :: "string \<Rightarrow> string \<Rightarrow> string" where
  "categoryOf low ext =
     (if HasPrefix low ''text/'' then ''text''
      else if HasPrefix low ''image/'' then ''image''
      else if HasPrefix low ''audio/'' then ''audio''
      else if HasPrefix low ''video/'' then ''video''
      else if Contains low ''zip'' \<or> Contains low ''compressed'' \<or> Contains low ''x-rar''
              \<or> Contains low ''7z'' \<or> Contains low ''tar''
      then ''archive''
      else extCategory ext)"

definition detectFileCategory :: "stdlib \<Rightarrow> os_File \<Rightarrow> string \<times> string" where
  "detectFileCategory lib f =
     (case ReadAt f 512 0 of (buf, err) \<Rightarrow>
        if err \<noteq> None \<and> err \<noteq> Some EOF
        then (''application/octet-stream'', ''binary'')
        else
          let sniff = buf;
              mimeStr = DetectContentType lib sniff;
              ext = ToLower (Ext (Name f));
              mimeStr = (if ext \<noteq> [] \<and> TypeByExtension lib ext \<noteq> []
                         then TypeByExtension lib ext else mimeStr);
              low = ToLower mimeStr
          in (mimeStr, categoryOf low ext))"

section \<open>RecommendAlgorithms (core.go, lines 34-248)\<close>

subsection \<open>Preprocessing (lines 43-79)\<close>

definition sizeFallback :: "os_File \<Rightarrow> int \<Rightarrow> int" where
  "sizeFallback f sizeBytes =
     (let sizeBytes = (if sizeBytes \<le> 0
                       then (case Stat f of Some sz \<Rightarrow> sz | None \<Rightarrow> 0)
                       else sizeBytes)
      in if sizeBytes < 0 then 0 else sizeBytes)"

definition normTradeoff :: "string \<Rightarrow> string" where
  "normTradeoff t =
     (let tradeoff = TrimSpace (ToLower t)
      in if tradeoff \<noteq> ''speed'' \<and> tradeoff \<noteq> ''ratio'' \<and> tradeoff \<noteq> ''balanced''
         then ''balanced'' else tradeoff)"

definition clampAttention :: "rat \<Rightarrow> rat" where
  "clampAttention attention =
     (if attention < 0 then 0 else if attention > 1 then 1 else attention)"

definition clampHours :: "int \<Rightarrow> int" where
  "clampHours lastUsedHours = (if lastUsedHours < 0 then 0 else lastUsedHours)"

definition sizeMBof :: "int \<Rightarrow> rat" where
  "sizeMBof sizeBytes = of_int sizeBytes / (1024 * 1024)"

definition luhWof :: "int \<Rightarrow> rat" where
  "luhWof lastUsedHours =
     (let luhW = of_int lastUsedHours / (24 * 7)
      in if luhW > 3 then 3 else luhW)"

subsection \<open>Encryption scoring (lines 82-107)\<close>

definition encCandidates :: "string list" where
  "encCandidates = [''aes256gcm'', ''aes256gcmsiv'', ''xchacha20poly1305'']"

definition encScores0 :: "string \<rightharpoonup> rat" where
  "encScores0 = [''aes256gcm'' \<mapsto> 0, ''aes256gcmsiv'' \<mapsto> 0, ''xchacha20poly1305'' \<mapsto> 0]"

text \<open>The body of the loop of line 85 for one candidate \<open>c\<close>: the value of \<^verbatim>\<open>score\<close> at line 105.\<close>

definition encScore :: "rat \<Rightarrow> rat \<Rightarrow> rat \<Rightarrow> string \<Rightarrow> bool \<Rightarrow> string \<Rightarrow> rat" where
  "encScore attention luhW sizeMB tradeoff aesni c =
     (let score = 0.1
      in if c = ''aes256gcmsiv'' then score + (attention * 2.5 + luhW * 1.2)
         else if c = ''aes256gcm'' then
           (let score = (if aesni then score + (attention * 0.6 + 2.0)
                         else score + (attention * 0.6 + 0.6))
            in score + luhW * 0.6)
         else if c = ''xchacha20poly1305'' then
           (let score = (if sizeMB > 100 then score + 3.0 else score);
                score = (if tradeoff = ''speed'' then score + 1.2 else score)
            in score + attention * 0.8)
         else score)"

text \<open>
  A scoring loop writes each candidate's score into the candidates' own map and, under
  the prefixed key, into \<^verbatim>\<open>rec.ScoreBreakdown\<close> (lines 105-106 and 186-187).
\<close>

definition scoreLoop ::
  "string \<Rightarrow> (string \<Rightarrow> rat) \<Rightarrow> string list \<Rightarrow>
   (string \<rightharpoonup> rat) \<times> (string \<rightharpoonup> rat) \<Rightarrow> (string \<rightharpoonup> rat) \<times> (string \<rightharpoonup> rat)" where
  "scoreLoop pre sc cs st =
     fold (\<lambda>c (scores, breakdown). (scores(c \<mapsto> sc c), breakdown(pre @ c \<mapsto> sc c))) cs st"

subsection \<open>Picking the best candidate (lines 110-120 and 190-200)\<close>

definition gtScore :: "rat \<Rightarrow> rat option \<Rightarrow> bool" where
  "gtScore v best = (case best of None \<Rightarrow> True | Some b \<Rightarrow> v > b)"

definition ltScore :: "rat option \<Rightarrow> rat \<Rightarrow> bool" where
  "ltScore best x = (case best of None \<Rightarrow> True | Some b \<Rightarrow> b < x)"

definition rangeStep ::
  "(string \<rightharpoonup> rat) \<Rightarrow> string \<Rightarrow> string \<times> rat option \<Rightarrow> string \<times> rat option" where
  "rangeStep m k acc =
     (case m k of
        None \<Rightarrow> acc
      | Some v \<Rightarrow> if gtScore v (snd acc) then (k, Some v) else acc)"

definition rangeBest :: "string list \<Rightarrow> (string \<rightharpoonup> rat) \<Rightarrow> string \<times> rat option" where
  "rangeBest order m = fold (rangeStep m) order ([], None)"

text \<open>An order is one a \<^verbatim>\<open>range\<close> loop over \<open>m\<close> can take when it visits every key once.\<close>

definition rangeOrderOf :: "string list \<Rightarrow> (string \<rightharpoonup> rat) \<Rightarrow> bool" where
  "rangeOrderOf order m = (distinct order \<and> set order = dom m)"

subsection \<open>Compression scoring (lines 124-188)\<close>

definition compCandidates :: "string list" where
  "compCandidates = [''zip'', ''lzma2'', ''lz4'', ''zstd'']"

definition compScores0 :: "string \<rightharpoonup> rat" where
  "compScores0 = [''zip'' \<mapsto> 0, ''lzma2'' \<mapsto> 0, ''lz4'' \<mapsto> 0, ''zstd'' \<mapsto> 0]"

definition isAlreadyCompressed :: "string \<Rightarrow> bool" where
  "isAlreadyCompressed category =
     (category = ''image'' \<or> category = ''video'' \<or> category = ''audio'' \<or> category = ''archive'')"

definition compScore :: "bool \<Rightarrow> rat \<Rightarrow> string \<Rightarrow> string \<Rightarrow> rat" where
  "compScore already sizeMB tradeoff c =
     (let score = 0.1;
          score =
            (if already then
               (if c = ''lz4'' then score + 2.0 else score - 1.2)
             else if c = ''lzma2'' then
               (let score = (if tradeoff = ''ratio'' then score + 3.0
                             else if tradeoff = ''balanced'' then score + 1.6
                             else score + 0.6)
                in if sizeMB > 100 then score + 1.2 else score)
             else if c = ''zstd'' then
               (let score = (if tradeoff = ''ratio'' then score + 2.5
                             else if tradeoff = ''balanced'' then score + 2.0
                             else score + 1.2)
                in if sizeMB > 50 then score + 1.0 else score)
             else if c = ''lz4'' then
               (let score = (if tradeoff = ''speed'' then score + 2.2
                             else if tradeoff = ''balanced'' then score + 1.0
                             else score + 0.3)
                in if sizeMB < 10 then score + 0.6 else score)
             else if c = ''zip'' then
               (let score = (if sizeMB < 10 then score + 1.2 else score)
                in if tradeoff = ''speed'' then score + 0.6 else score)
             else score)
      in if sizeMB > 500 \<and> (c = ''zstd'' \<or> c = ''lz4'') then score + 1.2 else score)"

subsection \<open>Zstd level (lines 214-245)\<close>

definition zstdLevel :: "string \<Rightarrow> rat \<Rightarrow> int" where
  "zstdLevel tradeoff sizeMB =
     (let level =
            (if tradeoff = ''speed'' then 1
             else if tradeoff = ''balanced'' then
               (if sizeMB > 200 then 3 else if sizeMB > 50 then 5 else 3)
             else if tradeoff = ''ratio'' then
               (if sizeMB > 500 then 12 else if sizeMB > 200 then 9 else 7)
             else 3);
          level = (if level < 1 then 1 else level)
      in if level > 22 then 22 else level)"

subsection \<open>Skip policy and result (lines 118-121 and 198-247)\<close>

definition orEmpty :: "string \<Rightarrow> string \<Rightarrow> string" where
  "orEmpty best dflt = (if best = [] then dflt else best)"

text \<open>
  The record returned, from the classification, the normalized tradeoff, the size, the
  score map, and the key and score each \<^verbatim>\<open>range\<close> loop ended with.
\<close>

definition decide ::
  "string \<Rightarrow> string \<Rightarrow> string \<Rightarrow> rat \<Rightarrow> (string \<rightharpoonup> rat)
   \<Rightarrow> string \<times> rat option \<Rightarrow> string \<times> rat option \<Rightarrow> Recommendation" where
  "decide mimeStr category tradeoff sizeMB breakdown bestEncPair bestCompPair =
     (let bestEnc = orEmpty (fst bestEncPair) ''aes256gcm'';
          bestEncScore = snd bestEncPair;
          bestComp = orEmpty (fst bestCompPair) ''lz4'';
          bestCompScore = snd bestCompPair;
          skip = (isAlreadyCompressed category
                  \<and> (ltScore bestCompScore 0.5
                       \<or> (bestComp = ''lz4'' \<and> tradeoff \<noteq> ''ratio'')));
          compression = (if skip then ''none'' else bestComp)
      in \<lparr>Encryption = bestEnc,
          Compression = compression,
          ZstdLevel = (if compression = ''zstd'' then zstdLevel tradeoff sizeMB else 0),
          SkipCompression = skip,
          ScoreBreakdown = breakdown,
          Reason = (if skip then ReasonSkip category
                    else ReasonPicked bestEnc bestEncScore compression bestCompScore),
          DetectedMime = mimeStr,
          DetectedCategory = category\<rparr>)"

subsection \<open>The whole function\<close>

text \<open>
  \<open>encSc\<close> and \<open>compSc\<close> are the scores the two loops of a call give a candidate,
  from the call's arguments after preprocessing.
\<close>

definition encSc :: "os_File \<Rightarrow> int \<Rightarrow> rat \<Rightarrow> int \<Rightarrow> Prefs \<Rightarrow> string \<Rightarrow> rat" where
  "encSc f lastUsedHours attention sizeBytes prefs =
     encScore (clampAttention attention) (luhWof (clampHours lastUsedHours))
       (sizeMBof (sizeFallback f sizeBytes)) (normTradeoff (Tradeoff prefs)) (AssumeAESNI prefs)"

definition compSc :: "stdlib \<Rightarrow> os_File \<Rightarrow> int \<Rightarrow> Prefs \<Rightarrow> string \<Rightarrow> rat" where
  "compSc lib f sizeBytes prefs =
     compScore (isAlreadyCompressed (snd (detectFileCategory lib f)))
       (sizeMBof (sizeFallback f sizeBytes)) (normTradeoff (Tradeoff prefs))"

definition RecommendAlgorithms ::
  "stdlib \<Rightarrow> range_order \<Rightarrow> os_File option \<Rightarrow> int \<Rightarrow> rat \<Rightarrow> int \<Rightarrow> Prefs
   \<Rightarrow> Recommendation \<times> string option" where
  "RecommendAlgorithms lib ro file lastUsedHours attention sizeBytes prefs =
     (case file of
        None \<Rightarrow> (rec0, Some ''file is nil'')
      | Some f \<Rightarrow>
          let encRes = scoreLoop ''enc_'' (encSc f lastUsedHours attention sizeBytes prefs)
                         encCandidates (encScores0, ScoreBreakdown rec0);
              compRes = scoreLoop ''comp_'' (compSc lib f sizeBytes prefs)
                          compCandidates (compScores0, snd encRes)
          in (decide (fst (detectFileCategory lib f)) (snd (detectFileCategory lib f))
                (normTradeoff (Tradeoff prefs)) (sizeMBof (sizeFallback f sizeBytes))
                (snd compRes)
                (rangeBest (encRange ro) (fst encRes))
                (rangeBest (compRange ro) (fst compRes)),
              None))"

section \<open>Concrete files and tables\<close>

text \<open>
  An open regular file with the given name and content: \<^verbatim>\<open>ReadAt\<close> returns the bytes
  available and \<^verbatim>\<open>io.EOF\<close> when they are fewer than the buffer; \<^verbatim>\<open>Stat\<close> gives the length.
\<close>

definition regularFile :: "string \<Rightarrow> char list \<Rightarrow> os_File" where
  "regularFile name content =
     \<lparr>Name = name,
      ReadAt = (\<lambda>n off. (take n (drop off content),
                         if length (take n (drop off content)) < n then Some EOF else None)),
      Stat = Some (int (length content))\<rparr>"

text \<open>A handle whose reads and \<^verbatim>\<open>Stat\<close> fail, as those of a closed file do.\<close>

definition closedFile :: "string \<Rightarrow> os_File" where
  "closedFile name = \<lparr>Name = name, ReadAt = (\<lambda>n off. ([], Some IOFailure)), Stat = None\<rparr>"

text \<open>
  A content sniffer in the shape of \<^verbatim>\<open>http.DetectContentType\<close>: magic numbers first, then
  the text signature, which accepts every prefix free of binary control bytes, then the
  fallback \<open>application/octet-stream\<close>. No magic number matches the empty prefix and the
  text signature accepts it, so the answer for no bytes at all is
  \<open>text/plain; charset=utf-8\<close>, as in the library. Only the magic numbers used below are
  listed.
\<close>

definition isBinaryByte :: "char \<Rightarrow> bool" where
  "isBinaryByte c =
     (let b = (of_char c :: nat)
      in b \<le> 8 \<or> b = 11 \<or> (14 \<le> b \<and> b \<le> 26) \<or> (28 \<le> b \<and> b \<le> 31))"

definition sniffer :: "char list \<Rightarrow> string" where
  "sniffer data =
     (if HasPrefix data ''%PDF-'' then ''application/pdf''
      else if HasPrefix data ''GIF89a'' then ''image/gif''
      else if HasPrefix data [CHR 0x89, CHR ''P'', CHR ''N'', CHR ''G'',
                              CHR 0x0D, CHR 0x0A, CHR 0x1A, CHR 0x0A]
      then ''image/png''
      else if HasPrefix data [CHR ''P'', CHR ''K'', CHR 0x03, CHR 0x04] then ''application/zip''
      else if list_all (\<lambda>c. \<not> isBinaryByte c) data then ''text/plain; charset=utf-8''
      else ''application/octet-stream'')"

text \<open>Some entries of Go's built-in extension table; every other extension is unknown.\<close>

definition extTable :: "string \<Rightarrow> string" where
  "extTable ext =
     (case map_of [(''.json'', ''application/json''), (''.pdf'', ''application/pdf''),
                   (''.png'', ''image/png''), (''.gif'', ''image/gif''),
                   (''.xml'', ''text/xml; charset=utf-8'')] ext of
        Some m \<Rightarrow> m
      | None \<Rightarrow> [])"

definition goLib :: stdlib where
  "goLib = \<lparr>DetectContentType = sniffer, TypeByExtension = extTable\<rparr>"

definition sliceOrder :: range_order where
  "sliceOrder = \<lparr>encRange = encCandidates, compRange = compCandidates\<rparr>"

definition pngMagic :: "char list" where
  "pngMagic = [CHR 0x89, CHR ''P'', CHR ''N'', CHR ''G'', CHR 0x0D, CHR 0x0A, CHR 0x1A, CHR 0x0A]"

definition notesTxt :: os_File where
  "notesTxt = regularFile ''notes.txt'' ''hello''"

definition photoPng :: os_File where
  "photoPng = regularFile ''photo.png'' pngMagic"

definition pngNamedMd :: os_File where
  "pngNamedMd = regularFile ''a.md'' pngMagic"

definition binaryJson :: os_File where
  "binaryJson = regularFile ''data.json'' [CHR 0x00, CHR 0x01]"

definition emptyDat :: os_File where
  "emptyDat = regularFile ''blob.dat'' []"

text \<open>Two more orders the loop over the encryption scores can take.\<close>

definition sivFirst :: range_order where
  "sivFirst = \<lparr>encRange = [''aes256gcmsiv'', ''xchacha20poly1305'', ''aes256gcm''],
               compRange = compCandidates\<rparr>"

definition chachaFirst :: range_order where
  "chachaFirst = \<lparr>encRange = [''xchacha20poly1305'', ''aes256gcmsiv'', ''aes256gcm''],
                  compRange = compCandidates\<rparr>"

definition readmePrefs :: Prefs where
  "readmePrefs = \<lparr>Tradeoff = ''ratio'', AssumeAESNI = True, ForceDetectExt = False\<rparr>"

definition prefsOf :: "string \<Rightarrow> Prefs" where
  "prefsOf t = \<lparr>Tradeoff = t, AssumeAESNI = False, ForceDetectExt = False\<rparr>"

section \<open>Notions of the design used in the statements\<close>

text \<open>
  The MIME-based rule of the design's classification step 4 taken alone: the category
  the lowered MIME string decides, \<open>None\<close> where no rule matches.
\<close>

definition mimeRule :: "string \<Rightarrow> string option" where
  "mimeRule low =
     (if HasPrefix low ''text/'' then Some ''text''
      else if HasPrefix low ''image/'' then Some ''image''
      else if HasPrefix low ''audio/'' then Some ''audio''
      else if HasPrefix low ''video/'' then Some ''video''
      else if Contains low ''zip'' \<or> Contains low ''compressed'' \<or> Contains low ''x-rar''
              \<or> Contains low ''7z'' \<or> Contains low ''tar''
      then Some ''archive''
      else None)"

text \<open>One candidate of the family \<open>cs\<close> scores strictly above every other in the score map.\<close>

definition uniqueBest :: "string \<Rightarrow> string list \<Rightarrow> (string \<rightharpoonup> rat) \<Rightarrow> bool" where
  "uniqueBest pre cs bd =
     list_ex (\<lambda>k. case bd (pre @ k) of
                    None \<Rightarrow> False
                  | Some s \<Rightarrow> list_all (\<lambda>c. c = k \<or> (case bd (pre @ c) of
                                                         None \<Rightarrow> False
                                                       | Some s' \<Rightarrow> s' < s)) cs) cs"

section \<open>Auxiliary facts\<close>

lemma scoreLoop_fst:
  "fst (scoreLoop pre sc cs (m, b)) k = (if k \<in> set cs then Some (sc k) else m k)"
  unfolding scoreLoop_def
  by (induction cs arbitrary: m b) auto

lemma scoreLoop_snd:
  "snd (scoreLoop pre sc cs (m, b)) k =
     (if k \<in> (\<lambda>c. pre @ c) ` set cs then Some (sc (drop (length pre) k)) else b k)"
  unfolding scoreLoop_def
  by (induction cs arbitrary: m b) auto

lemma normTradeoff_range:
  "normTradeoff t = ''speed'' \<or> normTradeoff t = ''ratio'' \<or> normTradeoff t = ''balanced''"
  by (simp add: normTradeoff_def Let_def)

lemma fold_rangeStep:
  assumes "fold (rangeStep m) order (k0, b0) = (k, b)"
  shows "(\<forall>w0. b0 = Some w0 \<longrightarrow> (\<exists>w. b = Some w \<and> w0 \<le> w))
       \<and> (\<forall>k'\<in>set order. \<forall>v. m k' = Some v \<longrightarrow> (\<exists>w. b = Some w \<and> v \<le> w))
       \<and> ((k, b) = (k0, b0) \<or> (k \<in> set order \<and> m k = b \<and> b \<noteq> None))"
  using assms
proof (induction order arbitrary: k0 b0)
  case Nil
  then show ?case by simp
next
  case (Cons x xs)
  obtain k1 b1 where s: "rangeStep m x (k0, b0) = (k1, b1)" by (cases "rangeStep m x (k0, b0)")
  with Cons.prems have f: "fold (rangeStep m) xs (k1, b1) = (k, b)" by simp
  note ih = Cons.IH[OF f]
  have s123: "(\<forall>w0. b0 = Some w0 \<longrightarrow> (\<exists>w. b1 = Some w \<and> w0 \<le> w))
      \<and> (\<forall>v. m x = Some v \<longrightarrow> (\<exists>w. b1 = Some w \<and> v \<le> w))
      \<and> ((k1, b1) = (k0, b0) \<or> (k1 = x \<and> m x = b1 \<and> b1 \<noteq> None))"
  proof (cases "m x")
    case None
    with s show ?thesis by (simp add: rangeStep_def)
  next
    case (Some v)
    show ?thesis
    proof (cases "gtScore v b0")
      case True
      with s Some have "k1 = x" "b1 = Some v" by (simp_all add: rangeStep_def)
      with True Some show ?thesis by (cases b0) (simp_all add: gtScore_def)
    next
      case False
      with s Some have "k1 = k0" "b1 = b0" by (simp_all add: rangeStep_def)
      with False Some show ?thesis by (cases b0) (simp_all add: gtScore_def)
    qed
  qed
  then have s1: "\<forall>w0. b0 = Some w0 \<longrightarrow> (\<exists>w. b1 = Some w \<and> w0 \<le> w)"
    and s2: "\<forall>v. m x = Some v \<longrightarrow> (\<exists>w. b1 = Some w \<and> v \<le> w)"
    and s3: "(k1, b1) = (k0, b0) \<or> (k1 = x \<and> m x = b1 \<and> b1 \<noteq> None)"
    by blast+
  show ?case
    using ih s1 s2 s3 by (auto; fastforce)
qed

lemma rangeBest_max:
  assumes "set order = dom m" and "dom m \<noteq> {}"
  shows "\<exists>k v. rangeBest order m = (k, Some v) \<and> m k = Some v
           \<and> (\<forall>k' v'. m k' = Some v' \<longrightarrow> v' \<le> v)"
proof -
  obtain k b where kb: "fold (rangeStep m) order ([], None) = (k, b)"
    by (cases "fold (rangeStep m) order ([], None)")
  note inv = fold_rangeStep[OF kb]
  from assms(2) obtain k1 where "k1 \<in> dom m" by blast
  then obtain v1 where "m k1 = Some v1" by blast
  with assms(1) have k1: "k1 \<in> set order" "m k1 = Some v1" by auto
  with inv obtain w where w: "b = Some w" by blast
  with inv have mk: "m k = Some w" by auto
  have "\<forall>k' v'. m k' = Some v' \<longrightarrow> v' \<le> w"
  proof (intro allI impI)
    fix k' v' assume h: "m k' = Some v'"
    then have "k' \<in> set order" using assms(1) by auto
    with inv h w show "v' \<le> w" by auto
  qed
  with kb w mk show ?thesis by (simp add: rangeBest_def)
qed

lemma dom_scoreLoop_fst:
  "dom (fst (scoreLoop pre sc cs (m, b))) = set cs \<union> dom m"
  by (auto simp: dom_def scoreLoop_fst)

lemma dom_encScores0: "dom encScores0 = set encCandidates"
  by (auto simp: encScores0_def encCandidates_def)

lemma dom_compScores0: "dom compScores0 = set compCandidates"
  by (auto simp: compScores0_def compCandidates_def)

lemma winner_generic:
  assumes "rangeOrderOf order m0" and "dom m0 = set cs" and "cs \<noteq> []" and "[] \<notin> set cs"
  shows "\<exists>k\<in>set cs. rangeBest order (fst (scoreLoop pre sc cs (m0, b))) = (k, Some (sc k))
           \<and> (\<forall>c\<in>set cs. sc c \<le> sc k) \<and> orEmpty k d = k"
proof -
  let ?m = "fst (scoreLoop pre sc cs (m0, b))"
  have m: "\<And>k. ?m k = (if k \<in> set cs then Some (sc k) else None)"
    using assms(2) by (auto simp: scoreLoop_fst)
  have d: "dom ?m = set cs" using assms(2) by (simp add: dom_scoreLoop_fst)
  have o: "set order = dom ?m" using assms(1,2) d by (simp add: rangeOrderOf_def)
  have ne: "dom ?m \<noteq> {}" using d assms(3) by simp
  from rangeBest_max[OF o ne] obtain k v where
    r: "rangeBest order ?m = (k, Some v)" and mk: "?m k = Some v"
    and mx: "\<forall>k' v'. ?m k' = Some v' \<longrightarrow> v' \<le> v" by blast
  from mk have kin: "k \<in> set cs" and v: "v = sc k" by (auto simp: m split: if_splits)
  have "\<forall>c\<in>set cs. sc c \<le> sc k"
  proof
    fix c assume "c \<in> set cs"
    then have "?m c = Some (sc c)" by (simp add: m)
    with mx v show "sc c \<le> sc k" by blast
  qed
  moreover have "orEmpty k d = k" using kin assms(4) by (auto simp: orEmpty_def)
  ultimately show ?thesis using r kin v by blast
qed

lemma enc_winner:
  assumes "rangeOrderOf order encScores0"
  shows "\<exists>k\<in>set encCandidates.
           rangeBest order (fst (scoreLoop pre sc encCandidates (encScores0, b))) = (k, Some (sc k))
           \<and> (\<forall>c\<in>set encCandidates. sc c \<le> sc k) \<and> orEmpty k d = k"
  by (rule winner_generic[OF assms dom_encScores0]) (simp_all add: encCandidates_def)

lemma comp_winner:
  assumes "rangeOrderOf order compScores0"
  shows "\<exists>k\<in>set compCandidates.
           rangeBest order (fst (scoreLoop pre sc compCandidates (compScores0, b))) = (k, Some (sc k))
           \<and> (\<forall>c\<in>set compCandidates. sc c \<le> sc k) \<and> orEmpty k d = k"
  by (rule winner_generic[OF assms dom_compScores0]) (simp_all add: compCandidates_def)

lemma RA_error:
  "snd (RecommendAlgorithms lib ro file h a sz p) =
     (case file of None \<Rightarrow> Some ''file is nil'' | Some f \<Rightarrow> None)"
  by (simp add: RecommendAlgorithms_def Let_def split: option.splits)

lemma RA_breakdown:
  "ScoreBreakdown (fst (RecommendAlgorithms lib ro (Some f) h a sz p)) =
     snd (scoreLoop ''comp_'' (compSc lib f sz p) compCandidates
            (compScores0, snd (scoreLoop ''enc_'' (encSc f h a sz p) encCandidates
                                 (encScores0, Map.empty))))"
  by (simp add: RecommendAlgorithms_def Let_def decide_def rec0_def)

lemma RA_breakdown_enc:
  assumes "c \<in> set encCandidates"
  shows "ScoreBreakdown (fst (RecommendAlgorithms lib ro (Some f) h a sz p)) (''enc_'' @ c) =
     Some (encSc f h a sz p c)"
  using assms
  by (auto simp: RA_breakdown scoreLoop_snd encCandidates_def compCandidates_def)

lemma RA_breakdown_comp:
  assumes "c \<in> set compCandidates"
  shows "ScoreBreakdown (fst (RecommendAlgorithms lib ro (Some f) h a sz p)) (''comp_'' @ c) =
     Some (compSc lib f sz p c)"
  using assms
  by (auto simp: RA_breakdown scoreLoop_snd encCandidates_def compCandidates_def)

lemma RA_category:
  "DetectedCategory (fst (RecommendAlgorithms lib ro (Some f) h a sz p)) = snd (detectFileCategory lib f)"
  "DetectedMime (fst (RecommendAlgorithms lib ro (Some f) h a sz p)) = fst (detectFileCategory lib f)"
  by (simp_all add: RecommendAlgorithms_def Let_def decide_def)

lemma RA_shape:
  assumes "rangeOrderOf (encRange ro) encScores0" and "rangeOrderOf (compRange ro) compScores0"
  shows "\<exists>ke\<in>set encCandidates. \<exists>kc\<in>set compCandidates.
           (\<forall>c\<in>set encCandidates. encSc f h a sz p c \<le> encSc f h a sz p ke)
         \<and> (\<forall>c\<in>set compCandidates. compSc lib f sz p c \<le> compSc lib f sz p kc)
         \<and> RecommendAlgorithms lib ro (Some f) h a sz p =
             (decide (fst (detectFileCategory lib f)) (snd (detectFileCategory lib f))
                (normTradeoff (Tradeoff p)) (sizeMBof (sizeFallback f sz))
                (snd (scoreLoop ''comp_'' (compSc lib f sz p) compCandidates
                   (compScores0, snd (scoreLoop ''enc_'' (encSc f h a sz p) encCandidates
                                        (encScores0, Map.empty)))))
                (ke, Some (encSc f h a sz p ke)) (kc, Some (compSc lib f sz p kc)), None)"
proof -
  let ?eb = "snd (scoreLoop ''enc_'' (encSc f h a sz p) encCandidates (encScores0, Map.empty))"
  from enc_winner[OF assms(1), of "''enc_''" "encSc f h a sz p" Map.empty "''aes256gcm''"]
  obtain ke where ke: "ke \<in> set encCandidates"
    "rangeBest (encRange ro) (fst (scoreLoop ''enc_'' (encSc f h a sz p) encCandidates
        (encScores0, Map.empty))) = (ke, Some (encSc f h a sz p ke))"
    "\<forall>c\<in>set encCandidates. encSc f h a sz p c \<le> encSc f h a sz p ke" by blast
  from comp_winner[OF assms(2), of "''comp_''" "compSc lib f sz p" ?eb "''lz4''"]
  obtain kc where kc: "kc \<in> set compCandidates"
    "rangeBest (compRange ro) (fst (scoreLoop ''comp_'' (compSc lib f sz p) compCandidates
        (compScores0, ?eb))) = (kc, Some (compSc lib f sz p kc))"
    "\<forall>c\<in>set compCandidates. compSc lib f sz p c \<le> compSc lib f sz p kc" by blast
  have "RecommendAlgorithms lib ro (Some f) h a sz p =
             (decide (fst (detectFileCategory lib f)) (snd (detectFileCategory lib f))
                (normTradeoff (Tradeoff p)) (sizeMBof (sizeFallback f sz))
                (snd (scoreLoop ''comp_'' (compSc lib f sz p) compCandidates (compScores0, ?eb)))
                (ke, Some (encSc f h a sz p ke)) (kc, Some (compSc lib f sz p kc)), None)"
    using ke(2) kc(2)
    by (simp add: RecommendAlgorithms_def Let_def rec0_def)
  with ke kc show ?thesis by blast
qed

lemma decide_fields:
  assumes "ke \<noteq> []" and "kc \<noteq> []"
  shows "Encryption (decide m cat t s bd (ke, Some es) (kc, Some cs)) = ke"
    and "SkipCompression (decide m cat t s bd (ke, Some es) (kc, Some cs)) =
           (isAlreadyCompressed cat \<and> (cs < 0.5 \<or> (kc = ''lz4'' \<and> t \<noteq> ''ratio'')))"
    and "Compression (decide m cat t s bd (ke, Some es) (kc, Some cs)) =
           (if isAlreadyCompressed cat \<and> (cs < 0.5 \<or> (kc = ''lz4'' \<and> t \<noteq> ''ratio''))
            then ''none'' else kc)"
    and "ZstdLevel (decide m cat t s bd (ke, Some es) (kc, Some cs)) =
           (if Compression (decide m cat t s bd (ke, Some es) (kc, Some cs)) = ''zstd''
            then zstdLevel t s else 0)"
    and "DetectedCategory (decide m cat t s bd (ke, Some es) (kc, Some cs)) = cat"
    and "DetectedMime (decide m cat t s bd (ke, Some es) (kc, Some cs)) = m"
  using assms by (simp_all add: decide_def Let_def orEmpty_def ltScore_def)

lemma candidates_nonempty:
  "c \<in> set encCandidates \<Longrightarrow> c \<noteq> []" "c \<in> set compCandidates \<Longrightarrow> c \<noteq> []"
  by (auto simp: encCandidates_def compCandidates_def)



lemma sizeMB_eq:
  "sizeMBof (sizeFallback f sz) =
     of_int (if sz > 0 then sz else case Stat f of None \<Rightarrow> 0 | Some s \<Rightarrow> max s 0) / 1048576"
  by (simp add: sizeMBof_def sizeFallback_def Let_def max_def split: option.splits)

lemma RA_winners:
  assumes "rangeOrderOf (encRange ro) encScores0" and "rangeOrderOf (compRange ro) compScores0"
  shows "\<exists>ke\<in>set encCandidates. \<exists>kc\<in>set compCandidates.
           (\<forall>c\<in>set encCandidates. encSc f h a sz p c \<le> encSc f h a sz p ke)
         \<and> (\<forall>c\<in>set compCandidates. compSc lib f sz p c \<le> compSc lib f sz p kc)
         \<and> Encryption (fst (RecommendAlgorithms lib ro (Some f) h a sz p)) = ke
         \<and> SkipCompression (fst (RecommendAlgorithms lib ro (Some f) h a sz p)) =
             (isAlreadyCompressed (snd (detectFileCategory lib f))
              \<and> (compSc lib f sz p kc < 0.5 \<or> (kc = ''lz4'' \<and> normTradeoff (Tradeoff p) \<noteq> ''ratio'')))
         \<and> Compression (fst (RecommendAlgorithms lib ro (Some f) h a sz p)) =
             (if SkipCompression (fst (RecommendAlgorithms lib ro (Some f) h a sz p))
              then ''none'' else kc)
         \<and> ZstdLevel (fst (RecommendAlgorithms lib ro (Some f) h a sz p)) =
             (if Compression (fst (RecommendAlgorithms lib ro (Some f) h a sz p)) = ''zstd''
              then zstdLevel (normTradeoff (Tradeoff p)) (sizeMBof (sizeFallback f sz)) else 0)
         \<and> Reason (fst (RecommendAlgorithms lib ro (Some f) h a sz p)) =
             (if SkipCompression (fst (RecommendAlgorithms lib ro (Some f) h a sz p))
              then ReasonSkip (snd (detectFileCategory lib f))
              else ReasonPicked ke (Some (encSc f h a sz p ke)) kc (Some (compSc lib f sz p kc)))"
proof -
  let ?R = "RecommendAlgorithms lib ro (Some f) h a sz p"
  from RA_shape[OF assms, of f h a sz p lib]
  obtain ke kc where ke: "ke \<in> set encCandidates" and kc: "kc \<in> set compCandidates"
    and me: "\<forall>c\<in>set encCandidates. encSc f h a sz p c \<le> encSc f h a sz p ke"
    and mc: "\<forall>c\<in>set compCandidates. compSc lib f sz p c \<le> compSc lib f sz p kc"
    and eq: "?R =
             (decide (fst (detectFileCategory lib f)) (snd (detectFileCategory lib f))
                (normTradeoff (Tradeoff p)) (sizeMBof (sizeFallback f sz))
                (snd (scoreLoop ''comp_'' (compSc lib f sz p) compCandidates
                   (compScores0, snd (scoreLoop ''enc_'' (encSc f h a sz p) encCandidates
                                        (encScores0, Map.empty)))))
                (ke, Some (encSc f h a sz p ke)) (kc, Some (compSc lib f sz p kc)), None)"
    by blast
  have ne: "ke \<noteq> []" "kc \<noteq> []" using ke kc candidates_nonempty by blast+
  have 1: "Encryption (fst ?R) = ke"
    by (simp add: eq decide_fields[OF ne])
  have 2: "SkipCompression (fst ?R) =
             (isAlreadyCompressed (snd (detectFileCategory lib f))
              \<and> (compSc lib f sz p kc < 0.5 \<or> (kc = ''lz4'' \<and> normTradeoff (Tradeoff p) \<noteq> ''ratio'')))"
    by (simp add: eq decide_fields[OF ne])
  have 3: "Compression (fst ?R) = (if SkipCompression (fst ?R) then ''none'' else kc)"
    by (auto simp add: eq decide_fields[OF ne])
  have 4: "ZstdLevel (fst ?R) =
             (if Compression (fst ?R) = ''zstd''
              then zstdLevel (normTradeoff (Tradeoff p)) (sizeMBof (sizeFallback f sz)) else 0)"
    by (simp add: eq decide_fields[OF ne])
  have 5: "Reason (fst ?R) =
             (if SkipCompression (fst ?R)
              then ReasonSkip (snd (detectFileCategory lib f))
              else ReasonPicked ke (Some (encSc f h a sz p ke)) kc (Some (compSc lib f sz p kc)))"
    using ne by (auto simp add: eq decide_def Let_def orEmpty_def ltScore_def)
  show ?thesis using ke kc me mc 1 2 3 4 5 by blast
qed

lemma RA_level:
  "ZstdLevel (fst (RecommendAlgorithms lib ro (Some f) h a sz p)) =
     (if Compression (fst (RecommendAlgorithms lib ro (Some f) h a sz p)) = ''zstd''
      then zstdLevel (normTradeoff (Tradeoff p)) (sizeMBof (sizeFallback f sz)) else 0)"
  by (simp add: RecommendAlgorithms_def decide_def Let_def)

lemma compSc_values:
  "compSc lib f sz p ''lz4'' =
     0.1 + (if isAlreadyCompressed (snd (detectFileCategory lib f)) then 2.0
            else (if normTradeoff (Tradeoff p) = ''ratio'' then 0.3
                  else if normTradeoff (Tradeoff p) = ''balanced'' then 1.0 else 2.2)
                 + (if sizeMBof (sizeFallback f sz) < 10 then 0.6 else 0))
         + (if sizeMBof (sizeFallback f sz) > 500 then 1.2 else 0)"
  "compSc lib f sz p ''lzma2'' =
     0.1 + (if isAlreadyCompressed (snd (detectFileCategory lib f)) then - 1.2
            else (if normTradeoff (Tradeoff p) = ''ratio'' then 3.0
                  else if normTradeoff (Tradeoff p) = ''balanced'' then 1.6 else 0.6)
                 + (if sizeMBof (sizeFallback f sz) > 100 then 1.2 else 0))"
  "compSc lib f sz p ''zstd'' =
     0.1 + (if isAlreadyCompressed (snd (detectFileCategory lib f)) then - 1.2
            else (if normTradeoff (Tradeoff p) = ''ratio'' then 2.5
                  else if normTradeoff (Tradeoff p) = ''balanced'' then 2.0 else 1.2)
                 + (if sizeMBof (sizeFallback f sz) > 50 then 1.0 else 0))
         + (if sizeMBof (sizeFallback f sz) > 500 then 1.2 else 0)"
  "compSc lib f sz p ''zip'' =
     0.1 + (if isAlreadyCompressed (snd (detectFileCategory lib f)) then - 1.2
            else (if normTradeoff (Tradeoff p) = ''speed'' then 0.6 else 0)
                 + (if sizeMBof (sizeFallback f sz) < 10 then 1.2 else 0))"
  using normTradeoff_range[of "Tradeoff p"]
  by (auto simp add: compSc_def compScore_def Let_def)

lemma encSc_values:
  "encSc f h a sz p ''aes256gcmsiv'' =
     0.1 + clampAttention a * 2.5 + luhWof (clampHours h) * 1.2"
  "encSc f h a sz p ''aes256gcm'' =
     0.1 + clampAttention a * 0.6 + (if AssumeAESNI p then 2.0 else 0.6)
         + luhWof (clampHours h) * 0.6"
  "encSc f h a sz p ''xchacha20poly1305'' =
     0.1 + (if sizeMBof (sizeFallback f sz) > 100 then 3.0 else 0)
         + (if normTradeoff (Tradeoff p) = ''speed'' then 1.2 else 0) + clampAttention a * 0.8"
  by (simp_all add: encSc_def encScore_def Let_def)

lemma comp_max_unique:
  assumes "k \<in> set compCandidates" and "kc \<in> set compCandidates"
    and "\<forall>c\<in>set compCandidates. c \<noteq> k \<longrightarrow> sc c < sc k"
    and "\<forall>c\<in>set compCandidates. sc c \<le> (sc kc :: rat)"
  shows "kc = k"
proof (rule ccontr)
  assume "kc \<noteq> k"
  with assms(2,3) have "sc kc < sc k" by blast
  moreover from assms(1,4) have "sc k \<le> sc kc" by blast
  ultimately show False by simp
qed

lemma already_lz4_strict:
  assumes "isAlreadyCompressed (snd (detectFileCategory lib f))"
  shows "\<forall>c\<in>set compCandidates. c \<noteq> ''lz4'' \<longrightarrow> compSc lib f sz p c < compSc lib f sz p ''lz4''"
  using assms by (simp add: compCandidates_def compSc_values)

lemma comp_candidate_not_none: "kc \<in> set compCandidates \<Longrightarrow> kc \<noteq> ''none''"
  by (auto simp: compCandidates_def)

lemma sliceOrder_ok:
  "rangeOrderOf (encRange sliceOrder) encScores0" "rangeOrderOf (compRange sliceOrder) compScores0"
  by (auto simp: sliceOrder_def rangeOrderOf_def encCandidates_def compCandidates_def
        encScores0_def compScores0_def)

lemmas detect_eval = detectFileCategory_def regularFile_def goLib_def sniffer_def extTable_def
  isBinaryByte_def HasPrefix_def ToLower_def toLowerByte_def Ext_def categoryOf_def
  extCategory_def Let_def pngMagic_def

lemma detect_notesTxt: "detectFileCategory goLib notesTxt = (''text/plain; charset=utf-8'', ''text'')"
  by (simp add: notesTxt_def detect_eval)

lemma detect_photoPng: "detectFileCategory goLib photoPng = (''image/png'', ''image'')"
  by (simp add: photoPng_def detect_eval)

lemma detect_pngNamedMd: "detectFileCategory goLib pngNamedMd = (''image/png'', ''image'')"
  by (simp add: pngNamedMd_def detect_eval)

lemma detect_binaryJson: "detectFileCategory goLib binaryJson = (''application/json'', ''text'')"
  by (simp add: binaryJson_def detect_eval)

lemma detect_emptyDat: "detectFileCategory goLib emptyDat = (''text/plain; charset=utf-8'', ''text'')"
  by (simp add: emptyDat_def detect_eval)

lemma detect_closed: "detectFileCategory lib (closedFile n) = (''application/octet-stream'', ''binary'')"
  by (simp add: closedFile_def detectFileCategory_def)

lemma norm_literals:
  "normTradeoff ''ratio'' = ''ratio''" "normTradeoff ''speed'' = ''speed''"
  "normTradeoff ''balanced'' = ''balanced''" "normTradeoff '' Ratio '' = ''ratio''"
  "normTradeoff [] = ''balanced''" "normTradeoff ''fast'' = ''balanced''"
  by (simp_all add: normTradeoff_def TrimSpace_def ToLower_def toLowerByte_def isSpace_def)

lemma ratio600_scores:
  assumes "\<not> isAlreadyCompressed (snd (detectFileCategory lib f))"
    and "sizeMBof (sizeFallback f sz) = 600" and "normTradeoff (Tradeoff p) = ''ratio''"
  shows "compSc lib f sz p ''lzma2'' = 4.3" and "compSc lib f sz p ''zstd'' = 4.8"
    and "compSc lib f sz p ''lz4'' = 1.6" and "compSc lib f sz p ''zip'' = 0.1"
  using assms by (simp_all add: compSc_values)

lemma ratio600_zstd:
  assumes "rangeOrderOf (encRange ro) encScores0" and "rangeOrderOf (compRange ro) compScores0"
    and "\<not> isAlreadyCompressed (snd (detectFileCategory lib f))"
    and "sizeMBof (sizeFallback f sz) = 600" and "normTradeoff (Tradeoff p) = ''ratio''"
  shows "Compression (fst (RecommendAlgorithms lib ro (Some f) h a sz p)) = ''zstd''
       \<and> \<not> SkipCompression (fst (RecommendAlgorithms lib ro (Some f) h a sz p))
       \<and> ZstdLevel (fst (RecommendAlgorithms lib ro (Some f) h a sz p)) = 12"
proof -
  let ?sc = "compSc lib f sz p"
  let ?R = "RecommendAlgorithms lib ro (Some f) h a sz p"
  note v = ratio600_scores[OF assms(3,4,5)]
  from RA_winners[OF assms(1,2), of f h a sz p lib]
  obtain kc where kc: "kc \<in> set compCandidates" "\<forall>c\<in>set compCandidates. ?sc c \<le> ?sc kc"
    "SkipCompression (fst ?R) =
       (isAlreadyCompressed (snd (detectFileCategory lib f))
        \<and> (?sc kc < 0.5 \<or> (kc = ''lz4'' \<and> normTradeoff (Tradeoff p) \<noteq> ''ratio'')))"
    "Compression (fst ?R) = (if SkipCompression (fst ?R) then ''none'' else kc)"
    by blast
  have "\<forall>c\<in>set compCandidates. c \<noteq> ''zstd'' \<longrightarrow> ?sc c < ?sc ''zstd''"
    by (simp add: compCandidates_def v)
  then have k: "kc = ''zstd''"
    using comp_max_unique[of "''zstd''" kc ?sc] kc(1,2) by (simp add: compCandidates_def)
  have sk: "\<not> SkipCompression (fst ?R)" using kc(3) assms(3) by simp
  have co: "Compression (fst ?R) = ''zstd''" using kc(4) sk k by simp
  have "ZstdLevel (fst ?R) = 12"
    using co assms(4,5) by (simp add: RA_level zstdLevel_def Let_def)
  with sk co show ?thesis by simp
qed

lemma notesTxt_text: "\<not> isAlreadyCompressed (snd (detectFileCategory goLib notesTxt))"
  by (simp add: detect_notesTxt isAlreadyCompressed_def)

lemma notesTxt_600:
  "sizeMBof (sizeFallback notesTxt 629145600) = 600"
  "Stat notesTxt = Some 5"
  by (simp_all add: sizeMBof_def sizeFallback_def notesTxt_def regularFile_def)

lemma prefsOf_simps:
  "Tradeoff (prefsOf t) = t" "AssumeAESNI (prefsOf t) = False"
  by (simp_all add: prefsOf_def)

lemma notesTxt_category:
  "DetectedCategory (fst (RecommendAlgorithms goLib ro (Some notesTxt) h a sz p)) = ''text''"
  by (simp add: RA_category detect_notesTxt)

lemma photoPng_category:
  "DetectedCategory (fst (RecommendAlgorithms goLib ro (Some photoPng) h a sz p)) = ''image''"
  by (simp add: RA_category detect_photoPng)


lemma strict_max_unique:
  assumes "k \<in> set cs" and "kc \<in> set cs"
    and "\<forall>c\<in>set cs. c \<noteq> k \<longrightarrow> sc c < sc k"
    and "\<forall>c\<in>set cs. sc c \<le> (sc kc :: rat)"
  shows "kc = k"
proof (rule ccontr)
  assume "kc \<noteq> k"
  with assms(2,3) have "sc kc < sc k" by blast
  moreover from assms(1,4) have "sc k \<le> sc kc" by blast
  ultimately show False by simp
qed

lemma uniqueBest_iff:
  "uniqueBest pre cs bd =
     (\<exists>k\<in>set cs. \<exists>s. bd (pre @ k) = Some s
        \<and> (\<forall>c\<in>set cs. c \<noteq> k \<longrightarrow> (\<exists>s'. bd (pre @ c) = Some s' \<and> s' < s)))"
proof -
  have i: "\<And>x s. (case x of None \<Rightarrow> False | Some s' \<Rightarrow> s' < (s::rat)) = (\<exists>s'. x = Some s' \<and> s' < s)"
    by (case_tac x) auto
  have o: "\<And>x P. (case x of None \<Rightarrow> False | Some (s::rat) \<Rightarrow> P s) = (\<exists>s. x = Some s \<and> P s)"
    by (case_tac x) auto
  show ?thesis
    unfolding uniqueBest_def list_ex_iff list_all_iff i o by blast
qed

lemma uniqueBest_scores:
  assumes "\<And>c. c \<in> set cs \<Longrightarrow> bd (pre @ c) = Some (sc c)"
  shows "uniqueBest pre cs bd = (\<exists>k\<in>set cs. \<forall>c\<in>set cs. c \<noteq> k \<longrightarrow> sc c < sc k)"
  unfolding uniqueBest_iff using assms by auto

lemma RA_Encryption_eq:
  "Encryption (fst (RecommendAlgorithms lib ro (Some f) h a sz p)) =
     orEmpty (fst (rangeBest (encRange ro)
                (fst (scoreLoop ''enc_'' (encSc f h a sz p) encCandidates
                        (encScores0, Map.empty))))) ''aes256gcm''"
  by (simp add: RecommendAlgorithms_def decide_def Let_def rec0_def)

lemma more_orders_ok:
  "rangeOrderOf (encRange sivFirst) encScores0" "rangeOrderOf (compRange sivFirst) compScores0"
  "rangeOrderOf (encRange chachaFirst) encScores0" "rangeOrderOf (compRange chachaFirst) compScores0"
  by (auto simp: sivFirst_def chachaFirst_def rangeOrderOf_def encCandidates_def
        compCandidates_def encScores0_def compScores0_def)

lemma notesTxt_small: "sizeMBof (sizeFallback notesTxt 0) = 5 / 1048576"
  by (simp add: sizeMBof_def sizeFallback_def notesTxt_def regularFile_def)

lemma tie_scores:
  "encSc notesTxt 168 0 0 (prefsOf ''speed'') ''aes256gcmsiv'' = 13 / 10"
  "encSc notesTxt 168 0 0 (prefsOf ''speed'') ''aes256gcm'' = 13 / 10"
  "encSc notesTxt 168 0 0 (prefsOf ''speed'') ''xchacha20poly1305'' = 13 / 10"
  by (simp_all add: encSc_values clampAttention_def luhWof_def clampHours_def notesTxt_small
        prefsOf_simps norm_literals Let_def)

lemma readme_enc_scores:
  "encSc notesTxt 48 0.8 0 readmePrefs ''aes256gcmsiv'' = 171 / 70"
  "encSc notesTxt 48 0.8 0 readmePrefs ''aes256gcm'' = 963 / 350"
  "encSc notesTxt 48 0.8 0 readmePrefs ''xchacha20poly1305'' = 37 / 50"
  by (simp_all add: encSc_values clampAttention_def luhWof_def clampHours_def notesTxt_small
        readmePrefs_def norm_literals Let_def)

lemma readme_comp_scores:
  "compSc goLib notesTxt 0 readmePrefs ''lzma2'' = 31 / 10"
  "compSc goLib notesTxt 0 readmePrefs ''zstd'' = 26 / 10"
  "compSc goLib notesTxt 0 readmePrefs ''lz4'' = 1"
  "compSc goLib notesTxt 0 readmePrefs ''zip'' = 13 / 10"
  using notesTxt_text
  by (simp_all add: compSc_values notesTxt_small readmePrefs_def norm_literals)

lemma tie_winners:
  "Encryption (fst (RecommendAlgorithms goLib sivFirst (Some notesTxt) 168 0 0
      (prefsOf ''speed''))) = ''aes256gcmsiv''"
  "Encryption (fst (RecommendAlgorithms goLib chachaFirst (Some notesTxt) 168 0 0
      (prefsOf ''speed''))) = ''xchacha20poly1305''"
  by (simp_all add: RA_Encryption_eq sivFirst_def chachaFirst_def rangeBest_def rangeStep_def
        scoreLoop_fst encCandidates_def tie_scores gtScore_def orEmpty_def)

lemma mimeRule_categoryOf:
  "categoryOf low ext = (case mimeRule low of Some c \<Rightarrow> c | None \<Rightarrow> extCategory ext)"
  by (simp add: categoryOf_def mimeRule_def)

lemma detect_read_ok:
  assumes "snd (ReadAt f 512 0) = None \<or> snd (ReadAt f 512 0) = Some EOF"
  shows "detectFileCategory lib f =
     (let ext = ToLower (Ext (Name f));
          mimeStr = (if ext \<noteq> [] \<and> TypeByExtension lib ext \<noteq> []
                     then TypeByExtension lib ext
                     else DetectContentType lib (fst (ReadAt f 512 0)))
      in (mimeStr, categoryOf (ToLower mimeStr) ext))"
  using assms by (cases "ReadAt f 512 0") (auto simp: detectFileCategory_def Let_def)

lemma detect_read_failed:
  assumes "snd (ReadAt f 512 0) = Some IOFailure"
  shows "detectFileCategory lib f = (''application/octet-stream'', ''binary'')"
  using assms by (cases "ReadAt f 512 0") (auto simp: detectFileCategory_def)

lemma ToLower_literals:
  "ToLower ''application/octet-stream'' = ''application/octet-stream''"
  "ToLower ''application/json'' = ''application/json''"
  "ToLower ''text/plain; charset=utf-8'' = ''text/plain; charset=utf-8''"
  "ToLower ''image/png'' = ''image/png''"
  by (simp_all add: ToLower_def toLowerByte_def)

lemma mimeRule_literals:
  "mimeRule ''application/octet-stream'' = None"
  "mimeRule ''application/json'' = None"
  "mimeRule ''text/plain; charset=utf-8'' = Some ''text''"
  "mimeRule ''image/png'' = Some ''image''"
  by (simp_all add: mimeRule_def HasPrefix_def)

section \<open>The claims\<close>





text \<open>
Claim C3. With \<open>kc\<close> the winning compression candidate and \<open>s\<close> its (maximal)
  score, the result has compression "none" and the skip flag set exactly when the
  category is already compressed and (\<open>s < 0.5\<close>, or \<open>kc\<close> is lz4 and the normalized
  tradeoff is not ratio); otherwise the compression is \<open>kc\<close> and the flag is clear.
  A file classified as image with tradeoff balanced gets "none" and the flag, whatever
  the signals.
\<close>

theorem skip_policy:
  fixes lib :: stdlib and ro :: range_order and f :: os_File and lastUsedHours :: int
    and attention :: rat and sizeBytes :: int and prefs :: Prefs
    and res :: "Recommendation \<times> string option" and t :: string and already :: bool
  assumes "rangeOrderOf (encRange ro) encScores0" and "rangeOrderOf (compRange ro) compScores0"
  defines "res \<equiv> RecommendAlgorithms lib ro (Some f) lastUsedHours attention sizeBytes prefs"
    and "already \<equiv> DetectedCategory (fst res) \<in> {''image'', ''video'', ''audio'', ''archive''}"
    and "t \<equiv> normTradeoff (Tradeoff prefs)"
  shows "(\<exists>kc\<in>set compCandidates. \<exists>s.
            ScoreBreakdown (fst res) (''comp_'' @ kc) = Some s
          \<and> (\<forall>c\<in>set compCandidates.
                \<exists>s'. ScoreBreakdown (fst res) (''comp_'' @ c) = Some s' \<and> s' \<le> s)
          \<and> ((Compression (fst res) = ''none'' \<and> SkipCompression (fst res))
               = (already \<and> (s < 0.5 \<or> (kc = ''lz4'' \<and> t \<noteq> ''ratio''))))
          \<and> (\<not> (already \<and> (s < 0.5 \<or> (kc = ''lz4'' \<and> t \<noteq> ''ratio''))) \<longrightarrow>
                Compression (fst res) = kc \<and> \<not> SkipCompression (fst res)))
       \<and> (DetectedCategory (fst res) = ''image'' \<and> t = ''balanced'' \<longrightarrow>
            Compression (fst res) = ''none'' \<and> SkipCompression (fst res))"
proof -
  let ?sc = "compSc lib f sizeBytes prefs"
  have bd: "\<And>c. c \<in> set compCandidates \<Longrightarrow> ScoreBreakdown (fst res) (''comp_'' @ c) = Some (?sc c)"
    unfolding res_def by (rule RA_breakdown_comp)
  have al: "isAlreadyCompressed (snd (detectFileCategory lib f)) = already"
    by (simp add: already_def res_def RA_category isAlreadyCompressed_def)
  from RA_winners[OF assms(1,2), of f lastUsedHours attention sizeBytes prefs lib]
  obtain kc where kc: "kc \<in> set compCandidates" "\<forall>c\<in>set compCandidates. ?sc c \<le> ?sc kc"
    "SkipCompression (fst res) = (already \<and> (?sc kc < 0.5 \<or> (kc = ''lz4'' \<and> t \<noteq> ''ratio'')))"
    "Compression (fst res) = (if SkipCompression (fst res) then ''none'' else kc)"
    unfolding res_def t_def al[symmetric] by blast
  note nn = comp_candidate_not_none[OF kc(1)]
  have p1: "\<exists>kc\<in>set compCandidates. \<exists>s.
            ScoreBreakdown (fst res) (''comp_'' @ kc) = Some s
          \<and> (\<forall>c\<in>set compCandidates.
                \<exists>s'. ScoreBreakdown (fst res) (''comp_'' @ c) = Some s' \<and> s' \<le> s)
          \<and> ((Compression (fst res) = ''none'' \<and> SkipCompression (fst res))
               = (already \<and> (s < 0.5 \<or> (kc = ''lz4'' \<and> t \<noteq> ''ratio''))))
          \<and> (\<not> (already \<and> (s < 0.5 \<or> (kc = ''lz4'' \<and> t \<noteq> ''ratio''))) \<longrightarrow>
                Compression (fst res) = kc \<and> \<not> SkipCompression (fst res))"
    apply (rule bexI[OF _ kc(1)])
    apply (rule exI[of _ "?sc kc"])
    using bd kc nn by auto
  have p2: "Compression (fst res) = ''none'' \<and> SkipCompression (fst res)"
    if h: "DetectedCategory (fst res) = ''image''" "t = ''balanced''"
  proof -
    from h(1) have a: "already" by (simp add: already_def)
    then have "kc = ''lz4''"
      using comp_max_unique[of "''lz4''" kc ?sc] kc(1,2) already_lz4_strict[of lib f sizeBytes prefs] al
      by (simp add: compCandidates_def)
    with a h(2) kc(3,4) show ?thesis by simp
  qed
  show ?thesis using p1 p2 by blast
qed

theorem skip_policy_witness:
  "rangeOrderOf (encRange sliceOrder) encScores0 \<and> rangeOrderOf (compRange sliceOrder) compScores0
   \<and> DetectedCategory (fst (RecommendAlgorithms goLib sliceOrder (Some photoPng) 0 0 0
        (prefsOf ''balanced''))) = ''image''
   \<and> normTradeoff (Tradeoff (prefsOf ''balanced'')) = ''balanced''
   \<and> Compression (fst (RecommendAlgorithms goLib sliceOrder (Some photoPng) 0 0 0
        (prefsOf ''balanced''))) = ''none''
   \<and> SkipCompression (fst (RecommendAlgorithms goLib sliceOrder (Some photoPng) 0 0 0
        (prefsOf ''balanced'')))
   \<and> DetectedCategory (fst (RecommendAlgorithms goLib sliceOrder (Some notesTxt) 48 0.8 0
        readmePrefs)) = ''text''
   \<and> Compression (fst (RecommendAlgorithms goLib sliceOrder (Some notesTxt) 48 0.8 0
        readmePrefs)) \<in> set compCandidates
   \<and> \<not> SkipCompression (fst (RecommendAlgorithms goLib sliceOrder (Some notesTxt) 48 0.8 0
        readmePrefs))"
proof -
  have a: "DetectedCategory (fst (RecommendAlgorithms goLib sliceOrder (Some photoPng) 0 0 0
        (prefsOf ''balanced''))) = ''image''
   \<and> normTradeoff (Tradeoff (prefsOf ''balanced'')) = ''balanced''
   \<and> Compression (fst (RecommendAlgorithms goLib sliceOrder (Some photoPng) 0 0 0
        (prefsOf ''balanced''))) = ''none''
   \<and> SkipCompression (fst (RecommendAlgorithms goLib sliceOrder (Some photoPng) 0 0 0
        (prefsOf ''balanced'')))"
    using skip_policy[OF sliceOrder_ok, where lib = goLib and f = photoPng
      and lastUsedHours = 0 and attention = 0 and sizeBytes = 0
      and prefs = "prefsOf ''balanced''"]
    by (simp add: photoPng_category prefsOf_simps norm_literals)
  have b: "DetectedCategory (fst (RecommendAlgorithms goLib sliceOrder (Some notesTxt) 48 0.8 0
        readmePrefs)) = ''text''
   \<and> Compression (fst (RecommendAlgorithms goLib sliceOrder (Some notesTxt) 48 0.8 0
        readmePrefs)) \<in> set compCandidates
   \<and> \<not> SkipCompression (fst (RecommendAlgorithms goLib sliceOrder (Some notesTxt) 48 0.8 0
        readmePrefs))"
    using skip_policy[OF sliceOrder_ok, where lib = goLib and f = notesTxt
      and lastUsedHours = 48 and attention = "0.8" and sizeBytes = 0
      and prefs = readmePrefs]
    by (auto simp add: notesTxt_category)
  show ?thesis using a b sliceOrder_ok by blast
qed

text \<open>
Claim C4. Whenever the compression returned is zstd, the level is 1 for speed; for
  balanced 3 up to 50 MB, 5 up to 200 MB and 3 again above; for ratio 7 up to 200 MB,
  9 up to 500 MB and 12 above; it lies in \<open>[1,22]\<close>; ratio at 600 MB gives 12. For a
  tradeoff that is none of the three, the level function gives 3.
\<close>

theorem zstd_level_policy:
  fixes lib :: stdlib and ro :: range_order and f :: os_File and lastUsedHours :: int
    and attention :: rat and sizeBytes :: int and prefs :: Prefs
    and res :: "Recommendation \<times> string option" and t :: string and sizeMB :: rat
  defines "res \<equiv> RecommendAlgorithms lib ro (Some f) lastUsedHours attention sizeBytes prefs"
    and "t \<equiv> normTradeoff (Tradeoff prefs)"
    and "sizeMB \<equiv> of_int (if sizeBytes > 0 then sizeBytes
                            else case Stat f of None \<Rightarrow> 0 | Some sz \<Rightarrow> max sz 0) / 1048576"
  shows "(Compression (fst res) = ''zstd'' \<longrightarrow>
            ZstdLevel (fst res) =
              (if t = ''speed'' then 1
               else if t = ''balanced'' then
                 (if sizeMB \<le> 50 then 3 else if sizeMB \<le> 200 then 5 else 3)
               else if t = ''ratio'' then
                 (if sizeMB \<le> 200 then 7 else if sizeMB \<le> 500 then 9 else 12)
               else 3)
          \<and> 1 \<le> ZstdLevel (fst res) \<and> ZstdLevel (fst res) \<le> 22
          \<and> (t = ''ratio'' \<and> sizeMB = 600 \<longrightarrow> ZstdLevel (fst res) = 12))
       \<and> (\<forall>t' s. t' \<noteq> ''speed'' \<and> t' \<noteq> ''balanced'' \<and> t' \<noteq> ''ratio'' \<longrightarrow> zstdLevel t' s = 3)"
proof -
  have sm: "sizeMBof (sizeFallback f sizeBytes) = sizeMB"
    by (simp add: sizeMB_eq sizeMB_def)
  have lv: "ZstdLevel (fst res) = (if Compression (fst res) = ''zstd'' then zstdLevel t sizeMB else 0)"
    unfolding res_def t_def sm[symmetric] by (rule RA_level)
  have z: "zstdLevel t sizeMB =
              (if t = ''speed'' then 1
               else if t = ''balanced'' then
                 (if sizeMB \<le> 50 then 3 else if sizeMB \<le> 200 then 5 else 3)
               else if t = ''ratio'' then
                 (if sizeMB \<le> 200 then 7 else if sizeMB \<le> 500 then 9 else 12)
               else 3)"
    by (simp add: zstdLevel_def Let_def)
  have b: "1 \<le> zstdLevel t sizeMB \<and> zstdLevel t sizeMB \<le> 22"
    by (simp add: zstdLevel_def Let_def)
  have o: "\<forall>t' s. t' \<noteq> ''speed'' \<and> t' \<noteq> ''balanced'' \<and> t' \<noteq> ''ratio'' \<longrightarrow> zstdLevel t' s = 3"
    by (simp add: zstdLevel_def Let_def)
  have m: "Compression (fst res) = ''zstd'' \<longrightarrow>
            ZstdLevel (fst res) =
              (if t = ''speed'' then 1
               else if t = ''balanced'' then
                 (if sizeMB \<le> 50 then 3 else if sizeMB \<le> 200 then 5 else 3)
               else if t = ''ratio'' then
                 (if sizeMB \<le> 200 then 7 else if sizeMB \<le> 500 then 9 else 12)
               else 3)
          \<and> 1 \<le> ZstdLevel (fst res) \<and> ZstdLevel (fst res) \<le> 22
          \<and> (t = ''ratio'' \<and> sizeMB = 600 \<longrightarrow> ZstdLevel (fst res) = 12)"
  proof
    assume "Compression (fst res) = ''zstd''"
    with lv have e: "ZstdLevel (fst res) = zstdLevel t sizeMB" by simp
    have "t = ''ratio'' \<and> sizeMB = 600 \<longrightarrow> zstdLevel t sizeMB = 12"
      by (simp add: zstdLevel_def Let_def)
    with z b show "ZstdLevel (fst res) =
              (if t = ''speed'' then 1
               else if t = ''balanced'' then
                 (if sizeMB \<le> 50 then 3 else if sizeMB \<le> 200 then 5 else 3)
               else if t = ''ratio'' then
                 (if sizeMB \<le> 200 then 7 else if sizeMB \<le> 500 then 9 else 12)
               else 3)
          \<and> 1 \<le> ZstdLevel (fst res) \<and> ZstdLevel (fst res) \<le> 22
          \<and> (t = ''ratio'' \<and> sizeMB = 600 \<longrightarrow> ZstdLevel (fst res) = 12)"
      unfolding e by blast
  qed
  show ?thesis using m o by blast
qed

theorem zstd_level_policy_witness:
  "Compression (fst (RecommendAlgorithms goLib sliceOrder (Some notesTxt) 0 0 629145600
        (prefsOf ''ratio''))) = ''zstd''
   \<and> ZstdLevel (fst (RecommendAlgorithms goLib sliceOrder (Some notesTxt) 0 0 629145600
        (prefsOf ''ratio''))) = 12
   \<and> zstdLevel ''fast'' 600 = 3"
proof -
  have c: "Compression (fst (RecommendAlgorithms goLib sliceOrder (Some notesTxt) 0 0 629145600
        (prefsOf ''ratio''))) = ''zstd''"
    using ratio600_zstd[OF sliceOrder_ok notesTxt_text notesTxt_600(1),
        of "prefsOf ''ratio''" 0 0]
    by (simp add: prefsOf_simps norm_literals)
  show ?thesis
    using zstd_level_policy[where lib = goLib and ro = sliceOrder and f = notesTxt
      and lastUsedHours = 0 and attention = 0 and sizeBytes = 629145600
      and prefs = "prefsOf ''ratio''"] c
    by (simp add: prefsOf_simps norm_literals)
qed

text \<open>
Claim C5, amended. For a file of category text with \<open>sizeMB = 600\<close> and tradeoff
  ratio the scores are those of the table with the base 0.1: lzma2 \<open>0.1 + 3.0 + 1.2 = 4.3\<close>,
  zstd \<open>0.1 + 2.5 + 1.0 + 1.2 = 4.8\<close>, lz4 \<open>0.1 + 0.3 + 1.2 = 1.6\<close>, zip \<open>0.1\<close>; the bonus
  above 500 MB goes to zstd and lz4 only. The winner is therefore zstd, not lzma2, and
  compression is not skipped.
\<close>

theorem large_text_ratio_zstd_wins:
  fixes lib :: stdlib and ro :: range_order and f :: os_File and lastUsedHours :: int
    and attention :: rat and sizeBytes :: int and prefs :: Prefs
    and res :: "Recommendation \<times> string option" and sizeMB :: rat
  assumes "rangeOrderOf (encRange ro) encScores0" and "rangeOrderOf (compRange ro) compScores0"
  defines "res \<equiv> RecommendAlgorithms lib ro (Some f) lastUsedHours attention sizeBytes prefs"
    and "sizeMB \<equiv> of_int (if sizeBytes > 0 then sizeBytes
                            else case Stat f of None \<Rightarrow> 0 | Some sz \<Rightarrow> max sz 0) / 1048576"
  assumes "DetectedCategory (fst res) = ''text''" and "sizeMB = 600"
    and "normTradeoff (Tradeoff prefs) = ''ratio''"
  shows "Compression (fst res) = ''zstd'' \<and> \<not> SkipCompression (fst res)
       \<and> ScoreBreakdown (fst res) ''comp_zstd'' = Some 4.8
       \<and> ScoreBreakdown (fst res) ''comp_lzma2'' = Some 4.3
       \<and> ScoreBreakdown (fst res) ''comp_lz4'' = Some 1.6
       \<and> ScoreBreakdown (fst res) ''comp_zip'' = Some 0.1"
proof -
  have al: "\<not> isAlreadyCompressed (snd (detectFileCategory lib f))"
    using assms(5) by (simp add: res_def RA_category isAlreadyCompressed_def)
  have sm: "sizeMBof (sizeFallback f sizeBytes) = 600"
    using assms(6) by (simp add: sizeMB_eq sizeMB_def)
  note v = ratio600_scores[OF al sm assms(7)]
  have bd: "\<And>c. c \<in> set compCandidates \<Longrightarrow>
      ScoreBreakdown (fst res) (''comp_'' @ c) = Some (compSc lib f sizeBytes prefs c)"
    unfolding res_def by (rule RA_breakdown_comp)
  have s: "ScoreBreakdown (fst res) ''comp_zstd'' = Some 4.8"
    "ScoreBreakdown (fst res) ''comp_lzma2'' = Some 4.3"
    "ScoreBreakdown (fst res) ''comp_lz4'' = Some 1.6"
    "ScoreBreakdown (fst res) ''comp_zip'' = Some 0.1"
    using bd[of "''zstd''"] bd[of "''lzma2''"] bd[of "''lz4''"] bd[of "''zip''"] v
    by (simp_all add: compCandidates_def)
  from ratio600_zstd[OF assms(1,2) al sm assms(7), of lastUsedHours attention]
  have "Compression (fst res) = ''zstd'' \<and> \<not> SkipCompression (fst res)"
    by (simp add: res_def)
  with s show ?thesis by simp
qed

theorem large_text_ratio_zstd_wins_witness:
  "rangeOrderOf (encRange sliceOrder) encScores0 \<and> rangeOrderOf (compRange sliceOrder) compScores0
   \<and> DetectedCategory (fst (RecommendAlgorithms goLib sliceOrder (Some notesTxt) 0 0 629145600
        (prefsOf ''ratio''))) = ''text''
   \<and> (629145600 :: rat) / 1048576 = 600
   \<and> normTradeoff (Tradeoff (prefsOf ''ratio'')) = ''ratio''
   \<and> Compression (fst (RecommendAlgorithms goLib sliceOrder (Some notesTxt) 0 0 629145600
        (prefsOf ''ratio''))) = ''zstd''
   \<and> ScoreBreakdown (fst (RecommendAlgorithms goLib sliceOrder (Some notesTxt) 0 0 629145600
        (prefsOf ''ratio''))) ''comp_zstd'' = Some (24 / 5)
   \<and> ScoreBreakdown (fst (RecommendAlgorithms goLib sliceOrder (Some notesTxt) 0 0 629145600
        (prefsOf ''ratio''))) ''comp_lzma2'' = Some (43 / 10)"
proof -
  have n: "normTradeoff (Tradeoff (prefsOf ''ratio'')) = ''ratio''"
    by (simp add: prefsOf_simps norm_literals)
  show ?thesis
    using large_text_ratio_zstd_wins[OF sliceOrder_ok notesTxt_category _ n,
        where sizeBytes = 629145600 and lastUsedHours = 0 and attention = 0]
      sliceOrder_ok notesTxt_category n
    by simp
qed

text \<open>
Claim C5 as stated fails: for the text file \<open>notes.txt\<close> at 600 MB with tradeoff ratio
  the compression returned is not lzma2, whose score is below that of zstd.
\<close>

theorem lzma2_wins_counterexample:
  "DetectedCategory (fst (RecommendAlgorithms goLib sliceOrder (Some notesTxt) 0 0 629145600
        (prefsOf ''ratio''))) = ''text''
   \<and> sizeMBof (sizeFallback notesTxt 629145600) = 600
   \<and> normTradeoff (Tradeoff (prefsOf ''ratio'')) = ''ratio''
   \<and> Compression (fst (RecommendAlgorithms goLib sliceOrder (Some notesTxt) 0 0 629145600
        (prefsOf ''ratio''))) \<noteq> ''lzma2''
   \<and> compSc goLib notesTxt 629145600 (prefsOf ''ratio'') ''lzma2''
       < compSc goLib notesTxt 629145600 (prefsOf ''ratio'') ''zstd''"
proof -
  have n: "normTradeoff (Tradeoff (prefsOf ''ratio'')) = ''ratio''"
    by (simp add: prefsOf_simps norm_literals)
  from ratio600_zstd[OF sliceOrder_ok notesTxt_text notesTxt_600(1) n, of 0 0]
  have "Compression (fst (RecommendAlgorithms goLib sliceOrder (Some notesTxt) 0 0 629145600
        (prefsOf ''ratio''))) \<noteq> ''lzma2''" by simp
  moreover have "compSc goLib notesTxt 629145600 (prefsOf ''ratio'') ''lzma2''
       < compSc goLib notesTxt 629145600 (prefsOf ''ratio'') ''zstd''"
    using ratio600_scores[OF notesTxt_text notesTxt_600(1) n] by simp
  ultimately show ?thesis using notesTxt_category notesTxt_600(1) n by simp
qed

text \<open>
Claim C6, amended. Whatever orders the two \<^verbatim>\<open>range\<close> loops take, the error, the score
  map and the classification of a call are the same; the encryption is the same when one
  encryption candidate scores strictly highest, and the whole result is the same when
  this holds in both families. (For fixed orders the result is a function of the inputs.)
  On an exact tie for the highest score the winner depends on the iteration order: no
  fixed priority among equal scores is applied.
\<close>

theorem deterministic_up_to_ties:
  fixes lib :: stdlib and ro1 ro2 :: range_order and fh :: "os_File option"
    and lastUsedHours :: int and attention :: rat and sizeBytes :: int and prefs :: Prefs
    and r1 r2 :: "Recommendation \<times> string option"
  assumes "rangeOrderOf (encRange ro1) encScores0" and "rangeOrderOf (compRange ro1) compScores0"
    and "rangeOrderOf (encRange ro2) encScores0" and "rangeOrderOf (compRange ro2) compScores0"
  defines "r1 \<equiv> RecommendAlgorithms lib ro1 fh lastUsedHours attention sizeBytes prefs"
    and "r2 \<equiv> RecommendAlgorithms lib ro2 fh lastUsedHours attention sizeBytes prefs"
  shows "snd r1 = snd r2
       \<and> ScoreBreakdown (fst r1) = ScoreBreakdown (fst r2)
       \<and> DetectedMime (fst r1) = DetectedMime (fst r2)
       \<and> DetectedCategory (fst r1) = DetectedCategory (fst r2)
       \<and> (uniqueBest ''enc_'' encCandidates (ScoreBreakdown (fst r1)) \<longrightarrow>
            Encryption (fst r1) = Encryption (fst r2))
       \<and> (uniqueBest ''enc_'' encCandidates (ScoreBreakdown (fst r1))
            \<and> uniqueBest ''comp_'' compCandidates (ScoreBreakdown (fst r1)) \<longrightarrow> r1 = r2)"
proof (cases fh)
  case None
  then show ?thesis by (simp add: r1_def r2_def RecommendAlgorithms_def)
next
  case (Some f)
  let ?esc = "encSc f lastUsedHours attention sizeBytes prefs"
  let ?csc = "compSc lib f sizeBytes prefs"
  let ?D = "decide (fst (detectFileCategory lib f)) (snd (detectFileCategory lib f))
                (normTradeoff (Tradeoff prefs)) (sizeMBof (sizeFallback f sizeBytes))
                (snd (scoreLoop ''comp_'' ?csc compCandidates
                   (compScores0, snd (scoreLoop ''enc_'' ?esc encCandidates
                                        (encScores0, Map.empty)))))"
  from RA_shape[OF assms(1,2), of f lastUsedHours attention sizeBytes prefs lib]
  obtain ke1 kc1 where k1: "ke1 \<in> set encCandidates" "kc1 \<in> set compCandidates"
    "\<forall>c\<in>set encCandidates. ?esc c \<le> ?esc ke1" "\<forall>c\<in>set compCandidates. ?csc c \<le> ?csc kc1"
    "r1 = (?D (ke1, Some (?esc ke1)) (kc1, Some (?csc kc1)), None)"
    unfolding r1_def Some by blast
  from RA_shape[OF assms(3,4), of f lastUsedHours attention sizeBytes prefs lib]
  obtain ke2 kc2 where k2: "ke2 \<in> set encCandidates" "kc2 \<in> set compCandidates"
    "\<forall>c\<in>set encCandidates. ?esc c \<le> ?esc ke2" "\<forall>c\<in>set compCandidates. ?csc c \<le> ?csc kc2"
    "r2 = (?D (ke2, Some (?esc ke2)) (kc2, Some (?csc kc2)), None)"
    unfolding r2_def Some by blast
  have e: "snd r1 = snd r2" by (simp add: r1_def r2_def RA_error)
  have b: "ScoreBreakdown (fst r1) = ScoreBreakdown (fst r2)"
    by (simp add: r1_def r2_def Some RA_breakdown)
  have m: "DetectedMime (fst r1) = DetectedMime (fst r2)"
    "DetectedCategory (fst r1) = DetectedCategory (fst r2)"
    by (simp_all add: r1_def r2_def Some RA_category)
  have ue: "uniqueBest ''enc_'' encCandidates (ScoreBreakdown (fst r1)) =
              (\<exists>k\<in>set encCandidates. \<forall>c\<in>set encCandidates. c \<noteq> k \<longrightarrow> ?esc c < ?esc k)"
    by (rule uniqueBest_scores, unfold r1_def Some, rule RA_breakdown_enc)
  have uc: "uniqueBest ''comp_'' compCandidates (ScoreBreakdown (fst r1)) =
              (\<exists>k\<in>set compCandidates. \<forall>c\<in>set compCandidates. c \<noteq> k \<longrightarrow> ?csc c < ?csc k)"
    by (rule uniqueBest_scores, unfold r1_def Some, rule RA_breakdown_comp)
  have ke: "ke1 = ke2" if "uniqueBest ''enc_'' encCandidates (ScoreBreakdown (fst r1))"
  proof -
    from that ue obtain k where k: "k \<in> set encCandidates"
      "\<forall>c\<in>set encCandidates. c \<noteq> k \<longrightarrow> ?esc c < ?esc k" by blast
    have "ke1 = k" by (rule strict_max_unique[OF k(1) k1(1) k(2) k1(3)])
    moreover have "ke2 = k" by (rule strict_max_unique[OF k(1) k2(1) k(2) k2(3)])
    ultimately show ?thesis by simp
  qed
  have kc: "kc1 = kc2" if "uniqueBest ''comp_'' compCandidates (ScoreBreakdown (fst r1))"
  proof -
    from that uc obtain k where k: "k \<in> set compCandidates"
      "\<forall>c\<in>set compCandidates. c \<noteq> k \<longrightarrow> ?csc c < ?csc k" by blast
    have "kc1 = k" by (rule strict_max_unique[OF k(1) k1(2) k(2) k1(4)])
    moreover have "kc2 = k" by (rule strict_max_unique[OF k(1) k2(2) k(2) k2(4)])
    ultimately show ?thesis by simp
  qed
  have en: "Encryption (fst r1) = ke1" "Encryption (fst r2) = ke2"
    using k1(1) k2(1) candidates_nonempty(1)
    by (simp_all add: k1(5) k2(5) decide_def Let_def orEmpty_def)
  have p5: "uniqueBest ''enc_'' encCandidates (ScoreBreakdown (fst r1)) \<longrightarrow>
            Encryption (fst r1) = Encryption (fst r2)"
    using ke en by simp
  have p6: "uniqueBest ''enc_'' encCandidates (ScoreBreakdown (fst r1))
            \<and> uniqueBest ''comp_'' compCandidates (ScoreBreakdown (fst r1)) \<longrightarrow> r1 = r2"
  proof
    assume "uniqueBest ''enc_'' encCandidates (ScoreBreakdown (fst r1))
            \<and> uniqueBest ''comp_'' compCandidates (ScoreBreakdown (fst r1))"
    then have "ke1 = ke2" and "kc1 = kc2" using ke kc by blast+
    then show "r1 = r2" unfolding k1(5) k2(5) by (simp only:)
  qed
  show ?thesis using e b m p5 p6 by blast
qed

theorem deterministic_up_to_ties_witness:
  "rangeOrderOf (encRange sliceOrder) encScores0 \<and> rangeOrderOf (compRange sliceOrder) compScores0
   \<and> rangeOrderOf (encRange chachaFirst) encScores0
   \<and> rangeOrderOf (compRange chachaFirst) compScores0
   \<and> uniqueBest ''enc_'' encCandidates
       (ScoreBreakdown (fst (RecommendAlgorithms goLib sliceOrder (Some notesTxt) 48 0.8 0
          readmePrefs)))
   \<and> uniqueBest ''comp_'' compCandidates
       (ScoreBreakdown (fst (RecommendAlgorithms goLib sliceOrder (Some notesTxt) 48 0.8 0
          readmePrefs)))
   \<and> RecommendAlgorithms goLib sliceOrder (Some notesTxt) 48 0.8 0 readmePrefs
       = RecommendAlgorithms goLib chachaFirst (Some notesTxt) 48 0.8 0 readmePrefs"
proof -
  have ue: "uniqueBest ''enc_'' encCandidates
       (ScoreBreakdown (fst (RecommendAlgorithms goLib sliceOrder (Some notesTxt) 48 0.8 0
          readmePrefs)))"
  proof -
    have "\<exists>k\<in>set encCandidates. \<forall>c\<in>set encCandidates. c \<noteq> k \<longrightarrow>
            encSc notesTxt 48 0.8 0 readmePrefs c < encSc notesTxt 48 0.8 0 readmePrefs k"
      using readme_enc_scores by (simp add: encCandidates_def)
    then show ?thesis
      by (subst uniqueBest_scores[where sc = "encSc notesTxt 48 0.8 0 readmePrefs"])
         (rule RA_breakdown_enc)
  qed
  have uc: "uniqueBest ''comp_'' compCandidates
       (ScoreBreakdown (fst (RecommendAlgorithms goLib sliceOrder (Some notesTxt) 48 0.8 0
          readmePrefs)))"
  proof -
    have "\<exists>k\<in>set compCandidates. \<forall>c\<in>set compCandidates. c \<noteq> k \<longrightarrow>
            compSc goLib notesTxt 0 readmePrefs c < compSc goLib notesTxt 0 readmePrefs k"
      using readme_comp_scores by (simp add: compCandidates_def)
    then show ?thesis
      by (subst uniqueBest_scores[where sc = "compSc goLib notesTxt 0 readmePrefs"])
         (rule RA_breakdown_comp)
  qed
  show ?thesis
    using deterministic_up_to_ties[OF sliceOrder_ok more_orders_ok(3,4),
        where lib = goLib and fh = "Some notesTxt" and lastUsedHours = 48
        and attention = "0.8" and sizeBytes = 0 and prefs = readmePrefs]
      ue uc sliceOrder_ok more_orders_ok(3,4)
    by blast
qed

text \<open>
Claim C6 as stated fails: for \<open>notes.txt\<close>, 168 hours, attention 0 and tradeoff speed,
  aes256gcmsiv and xchacha20poly1305 both score \<open>0.1 + 1.2\<close>, the highest score, and
  two iteration orders of the score map return different encryptions, so the results
  of the two calls differ. (In the first order the winner is not aes256gcm either, the
  head of the stated priority, which scores \<open>0.1 + 0.6 + 0.6\<close>.)
\<close>

theorem tie_break_counterexample:
  "rangeOrderOf (encRange sivFirst) encScores0 \<and> rangeOrderOf (compRange sivFirst) compScores0
   \<and> rangeOrderOf (encRange chachaFirst) encScores0
   \<and> rangeOrderOf (compRange chachaFirst) compScores0
   \<and> Encryption (fst (RecommendAlgorithms goLib sivFirst (Some notesTxt) 168 0 0
        (prefsOf ''speed''))) = ''aes256gcmsiv''
   \<and> Encryption (fst (RecommendAlgorithms goLib chachaFirst (Some notesTxt) 168 0 0
        (prefsOf ''speed''))) = ''xchacha20poly1305''
   \<and> RecommendAlgorithms goLib sivFirst (Some notesTxt) 168 0 0 (prefsOf ''speed'')
       \<noteq> RecommendAlgorithms goLib chachaFirst (Some notesTxt) 168 0 0 (prefsOf ''speed'')"
proof -
  have "RecommendAlgorithms goLib sivFirst (Some notesTxt) 168 0 0 (prefsOf ''speed'')
       \<noteq> RecommendAlgorithms goLib chachaFirst (Some notesTxt) 168 0 0 (prefsOf ''speed'')"
  proof
    assume "RecommendAlgorithms goLib sivFirst (Some notesTxt) 168 0 0 (prefsOf ''speed'')
       = RecommendAlgorithms goLib chachaFirst (Some notesTxt) 168 0 0 (prefsOf ''speed'')"
    then have "Encryption (fst (RecommendAlgorithms goLib sivFirst (Some notesTxt) 168 0 0
        (prefsOf ''speed''))) = Encryption (fst (RecommendAlgorithms goLib chachaFirst
        (Some notesTxt) 168 0 0 (prefsOf ''speed'')))" by simp
    then show False by (simp add: tie_winners)
  qed
  with more_orders_ok tie_winners show ?thesis by simp
qed

text \<open>
Claim C7, amended. When the prefix read succeeds, the category is the one the
  MIME-based rule decides from the final MIME string whenever that rule matches
  (text, image, audio, video or archive), whatever the extension; only when no rule
  matches do the listed extensions give text and \<open>.pdf\<close> archive. In particular a file
  sniffed as application/octet-stream with extension \<open>.json\<close>, whether \<open>.json\<close> has no
  MIME mapping or maps to application/json, is classified as text.
\<close>

theorem ext_fallback_scope:
  fixes lib :: stdlib and f :: os_File and mime cat ext :: string
  assumes "snd (ReadAt f 512 0) = None \<or> snd (ReadAt f 512 0) = Some EOF"
  defines "mime \<equiv> fst (detectFileCategory lib f)"
    and "cat \<equiv> snd (detectFileCategory lib f)"
    and "ext \<equiv> ToLower (Ext (Name f))"
  shows "(\<forall>c. mimeRule (ToLower mime) = Some c \<longrightarrow> cat = c)
       \<and> (mimeRule (ToLower mime) = None \<longrightarrow>
            (ext \<in> set [''.txt'', ''.md'', ''.csv'', ''.log'', ''.json'', ''.xml'', ''.yaml'',
                          ''.yml'', ''.go'', ''.py'', ''.c'', ''.cpp'', ''.java'']
               \<longrightarrow> cat = ''text'')
          \<and> (ext = ''.pdf'' \<longrightarrow> cat = ''archive''))
       \<and> (DetectContentType lib (fst (ReadAt f 512 0)) = ''application/octet-stream''
            \<and> ext = ''.json''
            \<and> (TypeByExtension lib ''.json'' = [] \<or> TypeByExtension lib ''.json'' = ''application/json'')
            \<longrightarrow> cat = ''text'')"
proof -
  note d = detect_read_ok[OF assms(1), of lib]
  have c: "cat = (case mimeRule (ToLower mime) of Some c \<Rightarrow> c | None \<Rightarrow> extCategory ext)"
    unfolding cat_def mime_def ext_def d by (simp add: Let_def mimeRule_categoryOf)
  have p1: "\<forall>c. mimeRule (ToLower mime) = Some c \<longrightarrow> cat = c" using c by simp
  have p2: "mimeRule (ToLower mime) = None \<longrightarrow>
            (ext \<in> set [''.txt'', ''.md'', ''.csv'', ''.log'', ''.json'', ''.xml'', ''.yaml'',
                          ''.yml'', ''.go'', ''.py'', ''.c'', ''.cpp'', ''.java'']
               \<longrightarrow> cat = ''text'')
          \<and> (ext = ''.pdf'' \<longrightarrow> cat = ''archive'')"
    using c by (auto simp: extCategory_def)
  have p3: "cat = ''text''"
    if h: "DetectContentType lib (fst (ReadAt f 512 0)) = ''application/octet-stream''"
      "ext = ''.json''"
      "TypeByExtension lib ''.json'' = [] \<or> TypeByExtension lib ''.json'' = ''application/json''"
  proof -
    have "mime = ''application/octet-stream'' \<or> mime = ''application/json''"
      using h unfolding mime_def d by (auto simp: Let_def ext_def[symmetric])
    then have "mimeRule (ToLower mime) = None"
      using ToLower_literals(1,2) mimeRule_literals(1,2) by metis
    with c h(2) show ?thesis by (simp add: extCategory_def)
  qed
  show ?thesis using p1 p2 p3 by blast
qed

theorem ext_fallback_scope_witness:
  "(snd (ReadAt binaryJson 512 0) = None \<or> snd (ReadAt binaryJson 512 0) = Some EOF)
   \<and> DetectContentType goLib (fst (ReadAt binaryJson 512 0)) = ''application/octet-stream''
   \<and> ToLower (Ext (Name binaryJson)) = ''.json''
   \<and> TypeByExtension goLib ''.json'' = ''application/json''
   \<and> mimeRule (ToLower (fst (detectFileCategory goLib binaryJson))) = None
   \<and> snd (detectFileCategory goLib binaryJson) = ''text''
   \<and> (snd (ReadAt photoPng 512 0) = None \<or> snd (ReadAt photoPng 512 0) = Some EOF)
   \<and> mimeRule (ToLower (fst (detectFileCategory goLib photoPng))) = Some ''image''
   \<and> snd (detectFileCategory goLib photoPng) = ''image''"
proof -
  have r: "snd (ReadAt binaryJson 512 0) = None \<or> snd (ReadAt binaryJson 512 0) = Some EOF"
    by (simp add: binaryJson_def regularFile_def)
  have s: "DetectContentType goLib (fst (ReadAt binaryJson 512 0)) = ''application/octet-stream''"
    by (simp add: binaryJson_def regularFile_def goLib_def sniffer_def HasPrefix_def
          isBinaryByte_def)
  have e: "ToLower (Ext (Name binaryJson)) = ''.json''"
    by (simp add: binaryJson_def regularFile_def Ext_def ToLower_def toLowerByte_def)
  have t: "TypeByExtension goLib ''.json'' = ''application/json''"
    by (simp add: goLib_def extTable_def)
  have m: "mimeRule (ToLower (fst (detectFileCategory goLib binaryJson))) = None"
    by (simp add: detect_binaryJson ToLower_literals mimeRule_literals)
  have a: "snd (detectFileCategory goLib binaryJson) = ''text''"
    using ext_fallback_scope[OF r, of goLib] s e t by simp
  have r': "snd (ReadAt photoPng 512 0) = None \<or> snd (ReadAt photoPng 512 0) = Some EOF"
    by (simp add: photoPng_def regularFile_def pngMagic_def)
  have m': "mimeRule (ToLower (fst (detectFileCategory goLib photoPng))) = Some ''image''"
    by (simp add: detect_photoPng ToLower_literals mimeRule_literals)
  have b: "snd (detectFileCategory goLib photoPng) = ''image''"
    using ext_fallback_scope[OF r', of goLib] m' by blast
  show ?thesis using r s e t m a r' m' b by blast
qed


text \<open>
Claim C7 as stated fails: a file named \<open>a.md\<close> (an extension of the fixed set, with no
  MIME mapping) whose content starts with the PNG magic number is classified as image,
  the MIME-based decision, not as text.
\<close>

theorem ext_override_counterexample:
  "(snd (ReadAt pngNamedMd 512 0) = None \<or> snd (ReadAt pngNamedMd 512 0) = Some EOF)
   \<and> ToLower (Ext (Name pngNamedMd)) = ''.md''
   \<and> TypeByExtension goLib ''.md'' = []
   \<and> DetectContentType goLib (fst (ReadAt pngNamedMd 512 0)) = ''image/png''
   \<and> detectFileCategory goLib pngNamedMd = (''image/png'', ''image'')
   \<and> snd (detectFileCategory goLib pngNamedMd) \<noteq> ''text''"
  by (simp add: detect_pngNamedMd)
     (simp add: pngNamedMd_def regularFile_def Ext_def ToLower_def toLowerByte_def goLib_def
        extTable_def sniffer_def HasPrefix_def pngMagic_def)

text \<open>
Claim C8, amended. For a zero-byte file (the read returns no bytes and end-of-stream)
  whose name has no extension mapping, classification does not fail and returns the
  content sniffer's answer for the empty prefix, with the category that MIME string
  and the extension give; with a sniffer that answers \<open>text/plain; charset=utf-8\<close> on the
  empty prefix, as \<^verbatim>\<open>http.DetectContentType\<close> does, the result is that MIME and category
  text. The recommendation is returned without error.
\<close>

theorem zero_byte_file:
  fixes lib :: stdlib and ro :: range_order and f :: os_File and lastUsedHours :: int
    and attention :: rat and sizeBytes :: int and prefs :: Prefs
  assumes "ReadAt f 512 0 = ([], Some EOF)"
    and "ToLower (Ext (Name f)) = [] \<or> TypeByExtension lib (ToLower (Ext (Name f))) = []"
  shows "fst (detectFileCategory lib f) = DetectContentType lib []
       \<and> snd (detectFileCategory lib f) =
           categoryOf (ToLower (DetectContentType lib [])) (ToLower (Ext (Name f)))
       \<and> (DetectContentType lib [] = ''text/plain; charset=utf-8'' \<longrightarrow>
            detectFileCategory lib f = (''text/plain; charset=utf-8'', ''text''))
       \<and> snd (RecommendAlgorithms lib ro (Some f) lastUsedHours attention sizeBytes prefs) = None"
proof -
  have r: "snd (ReadAt f 512 0) = None \<or> snd (ReadAt f 512 0) = Some EOF"
    using assms(1) by simp
  have d: "detectFileCategory lib f =
      (DetectContentType lib [],
       categoryOf (ToLower (DetectContentType lib [])) (ToLower (Ext (Name f))))"
    using assms unfolding detect_read_ok[OF r] by (auto simp: Let_def)
  have t: "categoryOf (ToLower ''text/plain; charset=utf-8'') e = ''text''" for e
    by (simp add: mimeRule_categoryOf ToLower_literals mimeRule_literals)
  show ?thesis using d t by (simp add: RA_error)
qed

theorem zero_byte_file_witness:
  "ReadAt emptyDat 512 0 = ([], Some EOF)
   \<and> TypeByExtension goLib (ToLower (Ext (Name emptyDat))) = []
   \<and> DetectContentType goLib [] = ''text/plain; charset=utf-8''
   \<and> detectFileCategory goLib emptyDat = (''text/plain; charset=utf-8'', ''text'')
   \<and> snd (RecommendAlgorithms goLib sliceOrder (Some emptyDat) 0 0 0 (prefsOf [])) = None"
proof -
  have r: "ReadAt emptyDat 512 0 = ([], Some EOF)"
    by (simp add: emptyDat_def regularFile_def)
  have e: "TypeByExtension goLib (ToLower (Ext (Name emptyDat))) = []"
    by (simp add: emptyDat_def regularFile_def Ext_def ToLower_def toLowerByte_def goLib_def
          extTable_def)
  have s: "DetectContentType goLib [] = ''text/plain; charset=utf-8''"
    by (simp add: goLib_def sniffer_def HasPrefix_def)
  show ?thesis
    using zero_byte_file[OF r disjI2[OF e], where ro = sliceOrder and lastUsedHours = 0
        and attention = 0 and sizeBytes = 0 and prefs = "prefsOf []"] r e s
    by simp
qed

text \<open>
Claim C8 as stated fails: the empty file \<open>blob.dat\<close>, whose extension has no mapping, is
  classified as \<open>text/plain; charset=utf-8\<close> and text, not as application/octet-stream
  and binary.
\<close>

theorem zero_byte_binary_counterexample:
  "ReadAt emptyDat 512 0 = ([], Some EOF)
   \<and> Stat emptyDat = Some 0
   \<and> TypeByExtension goLib (ToLower (Ext (Name emptyDat))) = []
   \<and> detectFileCategory goLib emptyDat = (''text/plain; charset=utf-8'', ''text'')
   \<and> detectFileCategory goLib emptyDat \<noteq> (''application/octet-stream'', ''binary'')"
  by (simp add: detect_emptyDat)
     (simp add: emptyDat_def regularFile_def Ext_def ToLower_def toLowerByte_def goLib_def
        extTable_def)

text \<open>
Claim C9. \<^verbatim>\<open>RecommendAlgorithms\<close> returns an error exactly when the file handle is nil;
  the recommendation is then the empty one (zero fields, empty score map). A prefix read
  that fails with an error other than end-of-stream gives MIME application/octet-stream
  and category binary, and no error.
\<close>

theorem error_iff_nil:
  fixes lib :: stdlib and ro :: range_order and fh :: "os_File option"
    and lastUsedHours :: int and attention :: rat and sizeBytes :: int and prefs :: Prefs
    and res :: "Recommendation \<times> string option"
  defines "res \<equiv> RecommendAlgorithms lib ro fh lastUsedHours attention sizeBytes prefs"
  shows "((snd res \<noteq> None) = (fh = None))
       \<and> (fh = None \<longrightarrow> res = (rec0, Some ''file is nil'')
             \<and> ScoreBreakdown (fst res) = Map.empty)
       \<and> (\<forall>f. fh = Some f \<and> snd (ReadAt f 512 0) = Some IOFailure \<longrightarrow>
             snd res = None
             \<and> detectFileCategory lib f = (''application/octet-stream'', ''binary'')
             \<and> DetectedMime (fst res) = ''application/octet-stream''
             \<and> DetectedCategory (fst res) = ''binary'')"
proof -
  have p1: "(snd res \<noteq> None) = (fh = None)"
    by (cases fh) (simp_all add: res_def RA_error)
  have p2: "fh = None \<longrightarrow> res = (rec0, Some ''file is nil'')
             \<and> ScoreBreakdown (fst res) = Map.empty"
    by (simp add: res_def RecommendAlgorithms_def rec0_def)
  have p3: "\<forall>f. fh = Some f \<and> snd (ReadAt f 512 0) = Some IOFailure \<longrightarrow>
             snd res = None
             \<and> detectFileCategory lib f = (''application/octet-stream'', ''binary'')
             \<and> DetectedMime (fst res) = ''application/octet-stream''
             \<and> DetectedCategory (fst res) = ''binary''"
    by (auto simp: res_def RA_error RA_category detect_read_failed)
  show ?thesis using p1 p2 p3 by blast
qed

theorem error_iff_nil_witness:
  "snd (ReadAt (closedFile ''gone.bin'') 512 0) = Some IOFailure
   \<and> snd (RecommendAlgorithms goLib sliceOrder (Some (closedFile ''gone.bin'')) 0 0 0
            (prefsOf [])) = None
   \<and> DetectedMime (fst (RecommendAlgorithms goLib sliceOrder (Some (closedFile ''gone.bin''))
        0 0 0 (prefsOf []))) = ''application/octet-stream''
   \<and> DetectedCategory (fst (RecommendAlgorithms goLib sliceOrder (Some (closedFile ''gone.bin''))
        0 0 0 (prefsOf []))) = ''binary''
   \<and> RecommendAlgorithms goLib sliceOrder None 0 0 0 (prefsOf []) = (rec0, Some ''file is nil'')"
proof -
  have r: "snd (ReadAt (closedFile ''gone.bin'') 512 0) = Some IOFailure"
    by (simp add: closedFile_def)
  show ?thesis
    using error_iff_nil[where lib = goLib and ro = sliceOrder
        and fh = "Some (closedFile ''gone.bin'')" and lastUsedHours = 0 and attention = 0
        and sizeBytes = 0 and prefs = "prefsOf []"]
      error_iff_nil[where lib = goLib and ro = sliceOrder and fh = None
        and lastUsedHours = 0 and attention = 0 and sizeBytes = 0 and prefs = "prefsOf []"]
      r
    by simp
qed



end
